theory Spec2Isabelle
  imports Complex_Main "HOL-Library.Multiset"
begin

section \<open>The video sync engine (hooks/useVideoSync.js)\<close>

text \<open>
  JavaScript numbers are modelled as real numbers: all arithmetic is exact and the
  values NaN and Infinity do not occur, with one exception that the code itself guards
  against: the \<open>duration\<close> of a video element is NaN until its metadata is loaded, so it
  is an optional value here (\<open>None\<close> is NaN).

  The hook keeps its working values in refs. A ref is a field of the record \<open>hook\<close>.
  The audio context is an external clock: \<open>contextRef\<close> holds the value that
  \<open>ctx.currentTime\<close> reads at the moment of the call, and \<open>None\<close> when no context
  is attached. \<open>audioStartTimeRef\<close> is \<open>None\<close> for \<open>null\<close>. The wall clock
  \<open>performance.now()\<close> is the argument \<open>now\<close> of every function that reads it.
\<close>

record video =
  currentTime :: real
  duration :: "real option"

record stats =
  corrections :: nat
  maxDrift :: real
  avgDrift :: real
  driftHistory :: "real list"

record hook =
  videoElementRef :: "video option"
  contextRef :: "real option"
  audioStartTimeRef :: "real option"
  cueOffsetRef :: real
  isPlayingRef :: bool
  lastCorrectionTimeRef :: real
  statsRef :: stats
  isActiveRef :: bool

definition CORRECTION_THROTTLE_MS :: real where
  "CORRECTION_THROTTLE_MS = 100"

definition calculateExpectedVideoTime :: "hook \<Rightarrow> real" where
  "calculateExpectedVideoTime h =
     (case contextRef h of
        None \<Rightarrow> 0
      | Some ctx_currentTime \<Rightarrow>
          (case audioStartTimeRef h of
             None \<Rightarrow> 0
           | Some startTime \<Rightarrow>
               (let audioElapsed = ctx_currentTime - startTime;
                    expectedTime = cueOffsetRef h + audioElapsed
                in max 0 expectedTime)))"

text \<open>
  \<open>calculateDrift\<close> returns the signed drift and, as a side effect, pushes its
  magnitude on the history, drops the oldest sample when more than 100 are held, and
  recomputes the two derived statistics.
\<close>

definition calculateDrift :: "hook \<Rightarrow> real \<times> hook" where
  "calculateDrift h =
     (case videoElementRef h of
        None \<Rightarrow> (0, h)
      | Some v \<Rightarrow>
          (let expectedTime = calculateExpectedVideoTime h;
               actualTime = currentTime v;
               drift = actualTime - expectedTime;
               st = statsRef h;
               pushed = driftHistory st @ [\<bar>drift\<bar>];
               hist = (if length pushed > 100 then tl pushed else pushed);
               st' = st\<lparr> driftHistory := hist,
                         maxDrift := max (maxDrift st) \<bar>drift\<bar>,
                         avgDrift := foldl (+) 0 hist / real (length hist) \<rparr>
           in (drift, h\<lparr> statsRef := st' \<rparr>)))"

text \<open>
  \<open>video.duration || expectedTime\<close>: the left operand when it is truthy (a number
  other than 0 and NaN), the right operand otherwise.
\<close>

definition duration_or :: "real option \<Rightarrow> real \<Rightarrow> real" where
  "duration_or d e = (case d of None \<Rightarrow> e | Some x \<Rightarrow> if x = 0 then e else x)"

text \<open>
  \<open>correctVideoTime\<close> returns whether a correction was applied, and the hook after
  the call. The assignment to \<open>video.currentTime\<close> is taken to succeed and to store the
  value assigned (the \<open>catch\<close> branch of the source is for a follower that throws).
\<close>

definition correctVideoTime :: "real \<Rightarrow> real \<Rightarrow> hook \<Rightarrow> bool \<times> hook" where
  "correctVideoTime now driftThreshold h =
     (case videoElementRef h of
        None \<Rightarrow> (False, h)
      | Some _ \<Rightarrow>
     (case contextRef h of
        None \<Rightarrow> (False, h)
      | Some _ \<Rightarrow>
          (let timeSinceLastCorrection = now - lastCorrectionTimeRef h
           in if timeSinceLastCorrection < CORRECTION_THROTTLE_MS then (False, h)
              else
                (let (drift, h1) = calculateDrift h;
                     absDrift = \<bar>drift\<bar>
                 in if absDrift > driftThreshold then
                      (case videoElementRef h1 of
                         None \<Rightarrow> (False, h1)
                       | Some v \<Rightarrow>
                           (let expectedTime = calculateExpectedVideoTime h1;
                                correctedTime = min expectedTime (duration_or (duration v) expectedTime)
                            in if correctedTime \<ge> 0 \<and> \<bar>correctedTime - currentTime v\<bar> > 0.01 then
                                 (True,
                                  h1\<lparr> videoElementRef := Some (v\<lparr> currentTime := correctedTime \<rparr>),
                                      lastCorrectionTimeRef := now,
                                      statsRef := (statsRef h1)\<lparr> corrections := Suc (corrections (statsRef h1)) \<rparr> \<rparr>)
                               else (False, h1)))
                    else (False, h1)))))"

definition periodicDriftCheck :: "real \<Rightarrow> real \<Rightarrow> hook \<Rightarrow> bool \<times> hook" where
  "periodicDriftCheck now driftThreshold h =
     (if \<not> isActiveRef h \<or> \<not> isPlayingRef h then (False, h)
      else
        (let (drift, h1) = calculateDrift h;
             absDrift = \<bar>drift\<bar>
         in if absDrift > driftThreshold * 2 then correctVideoTime now driftThreshold h1
            else (False, h1)))"

definition startSync :: "hook \<Rightarrow> hook" where
  "startSync h =
     (case videoElementRef h of
        None \<Rightarrow> h
      | Some _ \<Rightarrow>
     (case contextRef h of
        None \<Rightarrow> h
      | Some _ \<Rightarrow>
          h\<lparr> isActiveRef := True,
             statsRef := \<lparr> corrections = 0, maxDrift = 0, avgDrift = 0, driftHistory = [] \<rparr> \<rparr>))"

definition stopSync :: "hook \<Rightarrow> hook" where
  "stopSync h = (if \<not> isActiveRef h then h else h\<lparr> isActiveRef := False \<rparr>)"

definition forceSync :: "real \<Rightarrow> real \<Rightarrow> hook \<Rightarrow> bool \<times> hook" where
  "forceSync now driftThreshold h =
     (case videoElementRef h of
        None \<Rightarrow> (False, h)
      | Some _ \<Rightarrow>
     (case contextRef h of
        None \<Rightarrow> (False, h)
      | Some _ \<Rightarrow> correctVideoTime now driftThreshold h))"

text \<open>
  The effects of the hook, in the order in which React runs them after a render in
  which the props \<open>audioStartTime\<close> and \<open>cueOffset\<close> changed: the effects that copy the
  props into the refs, the lifecycle effect (its cleanup \<open>stopSync\<close>, then \<open>startSync\<close>
  or \<open>stopSync\<close>), and the cue-change effect, which calls \<open>forceSync\<close> while playing.
\<close>

definition lifecycleEffect :: "hook \<Rightarrow> hook" where
  "lifecycleEffect h =
     (let h0 = stopSync h
      in if isPlayingRef h0 \<and> videoElementRef h0 \<noteq> None \<and> contextRef h0 \<noteq> None
            \<and> audioStartTimeRef h0 \<noteq> None
         then startSync h0 else stopSync h0)"

definition cueChangeEffect :: "real \<Rightarrow> real \<Rightarrow> hook \<Rightarrow> bool \<times> hook" where
  "cueChangeEffect now driftThreshold h =
     (if isPlayingRef h \<and> videoElementRef h \<noteq> None \<and> contextRef h \<noteq> None
      then forceSync now driftThreshold h else (False, h))"

definition cueJump :: "real \<Rightarrow> real \<Rightarrow> real \<Rightarrow> real \<Rightarrow> hook \<Rightarrow> bool \<times> hook" where
  "cueJump now driftThreshold audioStartTime cueOffset h =
     (let h1 = h\<lparr> audioStartTimeRef := Some audioStartTime, cueOffsetRef := cueOffset \<rparr>;
          h2 = lifecycleEffect h1
      in cueChangeEffect now driftThreshold h2)"

text \<open>
  \<open>getSyncStatus\<close> samples the drift as well; only its effect on the hook is kept.
\<close>

definition getSyncStatus :: "hook \<Rightarrow> hook" where
  "getSyncStatus h =
     (case videoElementRef h of
        None \<Rightarrow> h
      | Some _ \<Rightarrow>
     (case contextRef h of
        None \<Rightarrow> h
      | Some _ \<Rightarrow> snd (calculateDrift h)))"

text \<open>
  Everything that can happen to a mounted hook, as a sequence of timed actions: its own
  entry points, and \<open>World\<close>, a change of what the hook observes but does not own (the
  video element and its position, the reading of the audio clock, the props).
  \<open>run\<close> returns the wall-clock times at which a correction was applied, in order.
\<close>

datatype action =
    ForceSync
  | PeriodicDriftCheck
  | CueJump real real
  | GetSyncStatus
  | StartSync
  | StopSync
  | World "video option" "real option" "real option" real bool

fun step :: "real \<Rightarrow> real \<Rightarrow> action \<Rightarrow> hook \<Rightarrow> bool \<times> hook" where
  "step now thr ForceSync h = forceSync now thr h"
| "step now thr PeriodicDriftCheck h = periodicDriftCheck now thr h"
| "step now thr (CueJump audioStartTime cueOffset) h = cueJump now thr audioStartTime cueOffset h"
| "step now thr GetSyncStatus h = (False, getSyncStatus h)"
| "step now thr StartSync h = (False, startSync h)"
| "step now thr StopSync h = (False, stopSync h)"
| "step now thr (World v ctx start offset playing) h =
     (False, h\<lparr> videoElementRef := v, contextRef := ctx, audioStartTimeRef := start,
                cueOffsetRef := offset, isPlayingRef := playing \<rparr>)"

fun run :: "(real \<times> real \<times> action) list \<Rightarrow> hook \<Rightarrow> real list \<times> hook" where
  "run [] h = ([], h)"
| "run ((now, thr, a) # rest) h =
     (let (applied, h1) = step now thr a h;
          (log, h2) = run rest h1
      in ((if applied then [now] else []) @ log, h2))"

text \<open>
  The hook as the test file's ``Rapid Cue Jump Test'' mounts it (step 1): the video at
  5.0 of 120.0 seconds, the audio started at clock value 10.0 from offset 5.0, the clock
  now at 11.5; no correction yet, empty statistics.
\<close>

definition rapid_jump_hook :: hook where
  "rapid_jump_hook =
     \<lparr> videoElementRef = Some \<lparr> currentTime = 5, duration = Some 120 \<rparr>,
       contextRef = Some 11.5,
       audioStartTimeRef = Some 10,
       cueOffsetRef = 5,
       isPlayingRef = True,
       lastCorrectionTimeRef = 0,
       statsRef = \<lparr> corrections = 0, maxDrift = 0, avgDrift = 0, driftHistory = [] \<rparr>,
       isActiveRef = True \<rparr>"

text \<open>The position the follower reports, if there is a follower.\<close>

definition videoCurrentTime :: "hook \<Rightarrow> real option" where
  "videoCurrentTime h = map_option currentTime (videoElementRef h)"

text \<open>
  Scenario C: a video of 120.0 seconds, at 100.0, when the expected position is 165.0.
\<close>

definition scenario_C_hook :: hook where
  "scenario_C_hook =
     \<lparr> videoElementRef = Some \<lparr> currentTime = 100, duration = Some 120 \<rparr>,
       contextRef = Some 165,
       audioStartTimeRef = Some 0,
       cueOffsetRef = 0,
       isPlayingRef = True,
       lastCorrectionTimeRef = 0,
       statsRef = \<lparr> corrections = 0, maxDrift = 0, avgDrift = 0, driftHistory = [] \<rparr>,
       isActiveRef = True \<rparr>"

text \<open>
  A follower that reports the duration 0, at 0.0, when the expected position is 5.0.
\<close>

definition zero_duration_hook :: hook where
  "zero_duration_hook =
     \<lparr> videoElementRef = Some \<lparr> currentTime = 0, duration = Some 0 \<rparr>,
       contextRef = Some 5,
       audioStartTimeRef = Some 0,
       cueOffsetRef = 0,
       isPlayingRef = True,
       lastCorrectionTimeRef = 0,
       statsRef = \<lparr> corrections = 0, maxDrift = 0, avgDrift = 0, driftHistory = [] \<rparr>,
       isActiveRef = True \<rparr>"

text \<open>
  Scenario D: a forced pass at wall-clock time 1000, the video falling behind again
  (the world moves it back to 5.0 while the clock reads 11.54), a second forced pass
  40 ms after the first, and a third one 100 ms after the first.
\<close>

definition scenario_D_run :: "(real \<times> real \<times> action) list" where
  "scenario_D_run =
     [(1000, 0.05, ForceSync),
      (1040, 0.05, World (Some \<lparr> currentTime = 5, duration = Some 120 \<rparr>) (Some 11.54) (Some 10) 5 True),
      (1040, 0.05, ForceSync),
      (1100, 0.05, ForceSync)]"

text \<open>
  What one step may do to the time of the last correction: an applied correction sets
  it to \<open>now\<close> and needs the throttle interval to have passed; anything else leaves it.
\<close>

definition throttled_step :: "real \<Rightarrow> hook \<Rightarrow> bool \<times> hook \<Rightarrow> bool" where
  "throttled_step now h r =
     (if fst r then lastCorrectionTimeRef (snd r) = now
                  \<and> CORRECTION_THROTTLE_MS \<le> now - lastCorrectionTimeRef h
      else lastCorrectionTimeRef (snd r) = lastCorrectionTimeRef h)"

text \<open>
  One tick of the drift monitor, seen from outside: the world has moved the video to
  the position \<open>fst r\<close>, the audio clock reads \<open>snd r\<close>, and the hook samples the drift
  with \<open>calculateDrift\<close>. \<open>driftSample\<close> is the magnitude that this tick measures in
  the session of \<open>h\<close>.
\<close>

definition driftTick :: "real \<times> real \<Rightarrow> hook \<Rightarrow> hook" where
  "driftTick r h =
     snd (calculateDrift
            (h\<lparr> videoElementRef := map_option (\<lambda>v. v\<lparr> currentTime := fst r \<rparr>) (videoElementRef h),
                contextRef := Some (snd r) \<rparr>))"

definition driftSample :: "hook \<Rightarrow> real \<times> real \<Rightarrow> real" where
  "driftSample h r = \<bar>fst r - calculateExpectedVideoTime (h\<lparr> contextRef := Some (snd r) \<rparr>)\<bar>"

text \<open>
  A session whose first tick finds the video 10 seconds behind (position 15.0 where
  25.0 is expected) and whose next 100 ticks find it in sync.
\<close>

definition evicted_peak_run :: "(real \<times> real) list" where
  "evicted_peak_run = (15, 30) # replicate 100 (25, 30)"

section \<open>The cue registry (components/CuePointEditor.jsx)\<close>

text \<open>
  A cue point is a JavaScript object with the fields \<open>time\<close>, \<open>label\<close>, \<open>key\<close>,
  \<open>sample_rate\<close> and \<open>sample_position\<close>. Any of them may be absent
  (\<open>undefined\<close>), which is \<open>None\<close>; a field that is present holds a number or a
  string as its name suggests. The registry handed to the editor is a dense array of
  such objects. Strings are ASCII.
\<close>

record cue =
  time :: "real option"
  label :: "string option"
  key :: "string option"
  sample_rate :: "real option"
  sample_position :: "real option"

definition empty_cue :: cue where
  "empty_cue = \<lparr> time = None, label = None, key = None, sample_rate = None, sample_position = None \<rparr>"

text \<open>\<open>Math.round\<close> rounds to the nearest integer, a tie towards positive infinity.\<close>

definition Math_round :: "real \<Rightarrow> real" where
  "Math_round x = of_int \<lfloor>x + 1 / 2\<rfloor>"

definition calculateSamplePosition :: "real \<Rightarrow> real \<Rightarrow> real" where
  "calculateSamplePosition sampleRate t = Math_round (t * sampleRate)"

text \<open>\<open>String.prototype.trim\<close> on ASCII: tab, line feed, vertical tab, form feed,
  carriage return and space are white space.\<close>

definition is_whitespace :: "char \<Rightarrow> bool" where
  "is_whitespace c \<longleftrightarrow> (of_char c :: nat) \<in> {9, 10, 11, 12, 13, 32}"

definition trim :: "string \<Rightarrow> string" where
  "trim s = rev (dropWhile is_whitespace (rev (dropWhile is_whitespace s)))"

text \<open>\<open>Array.prototype.findIndex\<close>, with \<open>None\<close> for \<open>-1\<close>.\<close>

fun findIndex_from :: "nat \<Rightarrow> ('a \<Rightarrow> nat \<Rightarrow> bool) \<Rightarrow> 'a list \<Rightarrow> nat option" where
  "findIndex_from i P [] = None"
| "findIndex_from i P (x # xs) = (if P x i then Some i else findIndex_from (Suc i) P xs)"

definition findIndex :: "('a \<Rightarrow> nat \<Rightarrow> bool) \<Rightarrow> 'a list \<Rightarrow> nat option" where
  "findIndex P xs = findIndex_from 0 P xs"

text \<open>
  The object \<open>errors\<close> of \<open>validateCue\<close>: which of its three properties are set, and
  what the message says.
\<close>

datatype time_message = Time_cannot_be_negative | Time_cannot_exceed_duration

record errors =
  time_error :: "time_message option"
  label_error :: bool
  key_error :: "nat option"

definition no_errors :: "errors \<Rightarrow> bool" where
  "no_errors e \<longleftrightarrow> time_error e = None \<and> \<not> label_error e \<and> key_error e = None"

definition validateCue :: "real \<Rightarrow> cue list \<Rightarrow> cue \<Rightarrow> nat \<Rightarrow> errors" where
  "validateCue audioDuration cuePoints c index =
     \<lparr> time_error =
         (case time c of
            None \<Rightarrow> None
          | Some t \<Rightarrow> if t < 0 then Some Time_cannot_be_negative
                     else if t > audioDuration then Some Time_cannot_exceed_duration
                     else None),
       label_error =
         (case label c of
            None \<Rightarrow> True
          | Some l \<Rightarrow> l = [] \<or> length (trim l) = 0),
       key_error =
         (case key c of
            None \<Rightarrow> None
          | Some k \<Rightarrow> if k = [] then None
                     else findIndex (\<lambda>other i. i \<noteq> index \<and> key other = Some k) cuePoints) \<rparr>"

text \<open>
  \<open>Array.prototype.sort\<close> with the comparator \<open>(a, b) => a.time - b.time\<close>. The sort
  is stable; \<open>sorts_after a b\<close> is ``the comparator is positive at \<open>(a, b)\<close>'', which
  it is not when a time is missing (the difference is NaN). With all times present
  this is the order on the times, and any stable sort returns what the insertion sort
  below returns.
\<close>

definition sorts_after :: "cue \<Rightarrow> cue \<Rightarrow> bool" where
  "sorts_after a b =
     (case time a of
        None \<Rightarrow> False
      | Some x \<Rightarrow> (case time b of None \<Rightarrow> False | Some y \<Rightarrow> x - y > 0))"

fun insert_by_time :: "cue \<Rightarrow> cue list \<Rightarrow> cue list" where
  "insert_by_time c [] = [c]"
| "insert_by_time c (d # ds) =
     (if sorts_after c d then d # insert_by_time c ds else c # d # ds)"

definition sort_by_time :: "cue list \<Rightarrow> cue list" where
  "sort_by_time cs = foldr insert_by_time cs []"

text \<open>
  A JavaScript array that may have holes (\<open>None\<close>). Assigning at an index beyond the
  end extends the array and leaves holes in between; sorting moves the holes to the end.
\<close>

type_synonym cue_array = "cue option list"

definition array_assign :: "cue list \<Rightarrow> nat \<Rightarrow> cue \<Rightarrow> cue_array" where
  "array_assign cs index c =
     (if index < length cs then map Some (cs[index := c])
      else map Some cs @ replicate (index - length cs) None @ [Some c])"

definition sort_array_by_time :: "cue_array \<Rightarrow> cue_array" where
  "sort_array_by_time a =
     map Some (sort_by_time (List.map_filter id a))
       @ replicate (length (filter (\<lambda>x. x = None) a)) None"

text \<open>
  \<open>updateCue (index, field, value)\<close>. The field and its value are one \<open>edit\<close>; for
  the field \<open>time\<close> the value is the number that \<open>parseTime\<close> makes of the text
  typed. The result is the \<open>errors\<close> stored under \<open>validationErrors[index]\<close> and the
  array passed to \<open>onUpdate\<close>, if \<open>onUpdate\<close> is called at all: the registry changes
  only through that call.
\<close>

datatype edit = EditTime real | EditLabel string | EditKey string

definition editedCue :: "real \<Rightarrow> cue list \<Rightarrow> nat \<Rightarrow> edit \<Rightarrow> cue" where
  "editedCue sampleRate cuePoints index e =
     (let c = (if index < length cuePoints then cuePoints ! index else empty_cue)
      in case e of
           EditTime timeValue \<Rightarrow>
             c\<lparr> time := Some timeValue,
                sample_position := Some (calculateSamplePosition sampleRate timeValue) \<rparr>
         | EditLabel v \<Rightarrow> c\<lparr> label := Some v \<rparr>
         | EditKey v \<Rightarrow> c\<lparr> key := Some v \<rparr>)"

definition is_time_edit :: "edit \<Rightarrow> bool" where
  "is_time_edit e = (case e of EditTime _ \<Rightarrow> True | _ \<Rightarrow> False)"

definition updateCue :: "real \<Rightarrow> real \<Rightarrow> cue list \<Rightarrow> nat \<Rightarrow> edit \<Rightarrow> errors \<times> cue_array option" where
  "updateCue audioDuration sampleRate cuePoints index e =
     (let c = editedCue sampleRate cuePoints index e;
          updatedCues = array_assign cuePoints index c;
          errs = validateCue audioDuration cuePoints c index
      in (errs,
          if no_errors errs
          then Some (if is_time_edit e then sort_array_by_time updatedCues else updatedCues)
          else None))"

text \<open>
  Export and import. \<open>JSON.stringify\<close> writes the fields each cue has, and
  \<open>JSON.parse\<close> of that text builds the same objects again; a file is what
  \<open>JSON.parse\<close> makes of it: a syntax error, a value that is not an array, or an array
  of objects with (some of) the fields of a cue.
\<close>

datatype json_file = Malformed | NotAnArray | CueArray "cue list"

datatype load_error = JSON_syntax_error | Expected_array_of_cue_points | Invalid_cue nat

definition saveCuesToJSON :: "cue list \<Rightarrow> json_file" where
  "saveCuesToJSON cuePoints = CueArray cuePoints"

definition string_or :: "string option \<Rightarrow> string \<Rightarrow> string" where
  "string_or s d = (case s of None \<Rightarrow> d | Some x \<Rightarrow> if x = [] then d else x)"

definition number_or :: "real option \<Rightarrow> real \<Rightarrow> real" where
  "number_or n d = (case n of None \<Rightarrow> d | Some x \<Rightarrow> if x = 0 then d else x)"

definition missing_time_or_label :: "cue \<Rightarrow> bool" where
  "missing_time_or_label c \<longleftrightarrow> time c = None \<or> (case label c of None \<Rightarrow> True | Some l \<Rightarrow> l = [])"

text \<open>
  The object that the import builds from a loaded cue. It is built only for a cue that
  has a time (the check before it throws otherwise), so the value taken for a missing
  time is never used.
\<close>

definition importedCue :: "real \<Rightarrow> cue \<Rightarrow> cue" where
  "importedCue sampleRate c =
     \<lparr> time = time c,
       label = label c,
       key = Some (string_or (key c) []),
       sample_rate = Some (number_or (sample_rate c) sampleRate),
       sample_position =
         Some (number_or (sample_position c)
                 (calculateSamplePosition sampleRate (case time c of Some t \<Rightarrow> t | None \<Rightarrow> 0))) \<rparr>"

definition loadCuesFromJSON :: "real \<Rightarrow> json_file \<Rightarrow> load_error + cue list" where
  "loadCuesFromJSON sampleRate file =
     (case file of
        Malformed \<Rightarrow> Inl JSON_syntax_error
      | NotAnArray \<Rightarrow> Inl Expected_array_of_cue_points
      | CueArray loadedCues \<Rightarrow>
          (case findIndex (\<lambda>c index. missing_time_or_label c) loadedCues of
             Some index \<Rightarrow> Inl (Invalid_cue index)
           | None \<Rightarrow> Inr (sort_by_time (map (importedCue sampleRate) loadedCues))))"

text \<open>
  The first test cue of \<open>SyncDemo.jsx\<close>, \<open>{ time: 5.0, label: "Intro", key: "1" }\<close>.
\<close>

definition intro_cue :: cue where
  "intro_cue = \<lparr> time = Some 5, label = Some ''Intro'', key = Some ''1'',
                  sample_rate = None, sample_position = None \<rparr>"


text \<open>
  Ascending order by time, for cues that have one; and the form in which an import
  leaves a cue: time and non-empty label present, a key string (possibly empty), a
  sample rate and a sample position that the defaults of the import would not replace.
\<close>

definition time_le :: "cue \<Rightarrow> cue \<Rightarrow> bool" where
  "time_le a b =
     (case time a of
        None \<Rightarrow> False
      | Some x \<Rightarrow> (case time b of None \<Rightarrow> False | Some y \<Rightarrow> x \<le> y))"

definition sorted_by_time :: "cue list \<Rightarrow> bool" where
  "sorted_by_time cs = sorted_wrt time_le cs"

definition persisted_form :: "real \<Rightarrow> cue \<Rightarrow> bool" where
  "persisted_form sampleRate c =
     (case time c of
        None \<Rightarrow> False
      | Some t \<Rightarrow>
          (case label c of None \<Rightarrow> False | Some l \<Rightarrow> l \<noteq> [])
        \<and> key c \<noteq> None
        \<and> (case sample_rate c of None \<Rightarrow> False | Some r \<Rightarrow> r \<noteq> 0 \<or> r = sampleRate)
        \<and> (case sample_position c of
              None \<Rightarrow> False
            | Some p \<Rightarrow> p \<noteq> 0 \<or> p = calculateSamplePosition sampleRate t))"

text \<open>Two cues as the editor's \<open>addCue\<close> makes them at 48 kHz, in order of time.\<close>

definition verse_cue :: cue where
  "verse_cue = \<lparr> time = Some 15.5, label = Some ''Verse 1'', key = Some ''2'',
                  sample_rate = Some 48000, sample_position = Some 744000 \<rparr>"

definition chorus_cue :: cue where
  "chorus_cue = \<lparr> time = Some 35.2, label = Some ''Chorus'', key = Some ''3'',
                   sample_rate = Some 48000, sample_position = Some 1689600 \<rparr>"


section \<open>Key dispatch (hooks/useCueKeyboardMap.js)\<close>

text \<open>\<open>String.prototype.toLowerCase\<close> on ASCII strings.\<close>

definition toLowerCase_char :: "char \<Rightarrow> char" where
  "toLowerCase_char c =
     (if 65 \<le> (of_char c :: nat) \<and> (of_char c :: nat) \<le> 90
      then char_of ((of_char c :: nat) + 32) else c)"

definition toLowerCase :: "string \<Rightarrow> string" where
  "toLowerCase s = map toLowerCase_char s"

text \<open>
  The key map is a \<open>Map\<close> from the lower-case key to the cue and its index in the
  registry; \<open>duplicateKeys\<close> is a \<open>Set\<close>, kept as the list of its members in the order
  of insertion. \<open>buildKeyMap_from\<close> is the \<open>forEach\<close> loop from index \<open>index\<close> on.
\<close>

type_synonym key_map = "string \<rightharpoonup> cue \<times> nat"

definition set_add :: "string \<Rightarrow> string list \<Rightarrow> string list" where
  "set_add x xs = (if x \<in> set xs then xs else xs @ [x])"

fun buildKeyMap_from :: "nat \<Rightarrow> cue list \<Rightarrow> key_map \<times> string list \<Rightarrow> key_map \<times> string list" where
  "buildKeyMap_from index [] acc = acc"
| "buildKeyMap_from index (c # rest) (keyMap, duplicateKeys) =
     (case key c of
        None \<Rightarrow> buildKeyMap_from (Suc index) rest (keyMap, duplicateKeys)
      | Some k \<Rightarrow>
          if k = [] then buildKeyMap_from (Suc index) rest (keyMap, duplicateKeys)
          else
            (let lower = toLowerCase k
             in if keyMap lower \<noteq> None
                then buildKeyMap_from (Suc index) rest (keyMap, set_add lower duplicateKeys)
                else buildKeyMap_from (Suc index) rest (keyMap(lower \<mapsto> (c, index)), duplicateKeys)))"

definition buildKeyMap :: "cue list \<Rightarrow> key_map \<times> string list" where
  "buildKeyMap cuePoints = buildKeyMap_from 0 cuePoints (Map.empty, [])"

text \<open>
  A \<open>keydown\<close> event: the modifier flags, the element it targets (if any) and the
  value of \<open>event.key\<close>. The hook reads \<open>ctrlKey\<close>, \<open>altKey\<close> and \<open>metaKey\<close>; the
  event carries \<open>shiftKey\<close> as well.
\<close>

record element =
  tagName :: string
  isContentEditable :: bool

record key_event =
  ctrlKey :: bool
  altKey :: bool
  metaKey :: bool
  shiftKey :: bool
  target :: "element option"
  eventKey :: string

record trigger_stats =
  totalTriggers :: nat
  triggersByKey :: "string \<Rightarrow> nat"
  lastTriggerTime :: "real option"

record dispatch =
  keyMapRef :: key_map
  lastTriggerRef :: "string \<rightharpoonup> real"
  triggerStatsRef :: trigger_stats

text \<open>The defaults of the hook's parameters, and the debounce the application passes.\<close>

definition default_debounceMs :: real where
  "default_debounceMs = 100"

definition default_excludeTargets :: "string list" where
  "default_excludeTargets = [''input'', ''textarea'', ''select'']"

definition UnifiedVideoEditor_debounceMs :: real where
  "UnifiedVideoEditor_debounceMs = 150"

definition shouldIgnoreEvent :: "bool \<Rightarrow> string list \<Rightarrow> key_event \<Rightarrow> bool" where
  "shouldIgnoreEvent enabled excludeTargets event =
     (if \<not> enabled then True
      else if ctrlKey event \<or> altKey event \<or> metaKey event then True
      else if (case target event of
                 None \<Rightarrow> False
               | Some t \<Rightarrow> toLowerCase (tagName t) \<in> set excludeTargets) then True
      else if (case target event of None \<Rightarrow> False | Some t \<Rightarrow> isContentEditable t) then True
      else False)"

text \<open>
  \<open>handleKeyPress\<close> returns the cue with which \<open>onTriggerCue\<close> is called, if it is
  called, and the refs after the event; \<open>now\<close> is \<open>Date.now()\<close>. A last trigger time
  of 0 is falsy and does not debounce.
\<close>

definition handleKeyPress ::
    "bool \<Rightarrow> real \<Rightarrow> string list \<Rightarrow> real \<Rightarrow> key_event \<Rightarrow> dispatch \<Rightarrow> (cue \<times> nat) option \<times> dispatch" where
  "handleKeyPress enabled debounceMs excludeTargets now event st =
     (if shouldIgnoreEvent enabled excludeTargets event then (None, st)
      else
        (let k = toLowerCase (eventKey event)
         in case keyMapRef st k of
              None \<Rightarrow> (None, st)
            | Some c \<Rightarrow>
                if (case lastTriggerRef st k of
                      None \<Rightarrow> False
                    | Some lastTrigger \<Rightarrow> lastTrigger \<noteq> 0 \<and> now - lastTrigger < debounceMs)
                then (None, st)
                else
                  (Some c,
                   st\<lparr> lastTriggerRef := (lastTriggerRef st)(k \<mapsto> now),
                       triggerStatsRef :=
                         (triggerStatsRef st)
                           \<lparr> totalTriggers := Suc (totalTriggers (triggerStatsRef st)),
                             triggersByKey :=
                               (triggersByKey (triggerStatsRef st))
                                 (k := triggersByKey (triggerStatsRef st) k + 1),
                             lastTriggerTime := Some now \<rparr> \<rparr>)))"

text \<open>The refs when the hook is mounted on a registry, before any key was pressed.\<close>

definition mountKeyboard :: "cue list \<Rightarrow> dispatch" where
  "mountKeyboard cuePoints =
     \<lparr> keyMapRef = fst (buildKeyMap cuePoints),
       lastTriggerRef = Map.empty,
       triggerStatsRef = \<lparr> totalTriggers = 0, triggersByKey = (\<lambda>_. 0), lastTriggerTime = None \<rparr> \<rparr>"

text \<open>
  \<open>binds k c\<close>: the cue \<open>c\<close> has a key that reads \<open>k\<close> in lower case;
  \<open>first_bound index k cs\<close>: the first such cue of \<open>cs\<close>, with its index counted from
  \<open>index\<close>.
\<close>

definition binds :: "string \<Rightarrow> cue \<Rightarrow> bool" where
  "binds k c = (case key c of None \<Rightarrow> False | Some x \<Rightarrow> x \<noteq> [] \<and> toLowerCase x = k)"

fun first_bound :: "nat \<Rightarrow> string \<Rightarrow> cue list \<Rightarrow> (cue \<times> nat) option" where
  "first_bound index k [] = None"
| "first_bound index k (c # cs) = (if binds k c then Some (c, index) else first_bound (Suc index) k cs)"

text \<open>
  Two cues whose keys differ in case only: \<open>a\<close> as the editor's \<open>getNextAvailableKey\<close>
  assigns it, \<open>A\<close> as the grid's \<open>getKeyForSlot\<close> assigns it; and key events on the
  page body: a plain \<open>a\<close>, and \<open>A\<close> typed with Shift held.
\<close>

definition lower_a_cue :: cue where
  "lower_a_cue = \<lparr> time = Some 20, label = Some ''Cue 10'', key = Some ''a'',
                    sample_rate = Some 48000, sample_position = Some 960000 \<rparr>"

definition upper_A_cue :: cue where
  "upper_A_cue = \<lparr> time = Some 40, label = Some ''Cue 9'', key = Some ''A'',
                    sample_rate = Some 48000, sample_position = Some 1920000 \<rparr>"

definition plain_a_event :: key_event where
  "plain_a_event = \<lparr> ctrlKey = False, altKey = False, metaKey = False, shiftKey = False,
                      target = Some \<lparr> tagName = ''BODY'', isContentEditable = False \<rparr>,
                      eventKey = ''a'' \<rparr>"

definition shift_A_event :: key_event where
  "shift_A_event = \<lparr> ctrlKey = False, altKey = False, metaKey = False, shiftKey = True,
                      target = Some \<lparr> tagName = ''BODY'', isContentEditable = False \<rparr>,
                      eventKey = ''A'' \<rparr>"

section \<open>Facts about one call of the controller\<close>

lemmas sync_defs = correctVideoTime_def calculateDrift_def calculateExpectedVideoTime_def
  CORRECTION_THROTTLE_MS_def duration_or_def Let_def videoCurrentTime_def forceSync_def
  cueJump_def cueChangeEffect_def lifecycleEffect_def startSync_def stopSync_def

lemma expected_statsRef:
  "calculateExpectedVideoTime (h\<lparr> statsRef := s \<rparr>) = calculateExpectedVideoTime h"
  by (simp add: calculateExpectedVideoTime_def split: option.splits)

lemma expected_frame:
  "calculateExpectedVideoTime (h\<lparr> videoElementRef := v \<rparr>) = calculateExpectedVideoTime h"
  "calculateExpectedVideoTime (h\<lparr> lastCorrectionTimeRef := t \<rparr>) = calculateExpectedVideoTime h"
  "calculateExpectedVideoTime (h\<lparr> isActiveRef := b \<rparr>) = calculateExpectedVideoTime h"
  by (simp_all add: calculateExpectedVideoTime_def split: option.splits)

lemma calculateDrift_frame:
  "\<exists>s. snd (calculateDrift h) = h\<lparr> statsRef := s \<rparr>"
proof (cases "videoElementRef h")
  case None
  then show ?thesis by (auto simp: calculateDrift_def intro: exI[of _ "statsRef h"])
next
  case (Some v)
  then show ?thesis by (simp add: calculateDrift_def Let_def) blast
qed

lemma calculateDrift_value:
  "videoElementRef h = Some v \<Longrightarrow>
     fst (calculateDrift h) = currentTime v - calculateExpectedVideoTime h"
  by (simp add: calculateDrift_def Let_def)

lemma correct_applied:
  assumes "correctVideoTime now thr h = (True, h')"
  shows "\<exists>v. videoElementRef h = Some v
    \<and> now - lastCorrectionTimeRef h \<ge> CORRECTION_THROTTLE_MS
    \<and> \<bar>currentTime v - calculateExpectedVideoTime h\<bar> > thr
    \<and> videoElementRef h' = Some (v\<lparr> currentTime := min (calculateExpectedVideoTime h) (duration_or (duration v) (calculateExpectedVideoTime h)) \<rparr>)
    \<and> lastCorrectionTimeRef h' = now
    \<and> calculateExpectedVideoTime h' = calculateExpectedVideoTime h
    \<and> \<bar>min (calculateExpectedVideoTime h) (duration_or (duration v) (calculateExpectedVideoTime h)) - currentTime v\<bar> > 0.01"
proof (cases "videoElementRef h")
  case None
  with assms show ?thesis by (simp add: correctVideoTime_def)
next
  case (Some v)
  show ?thesis
  proof (cases "contextRef h")
    case None
    with assms Some show ?thesis by (simp add: correctVideoTime_def)
  next
    case ctx: (Some c)
    obtain s where s: "snd (calculateDrift h) = h\<lparr> statsRef := s \<rparr>"
      using calculateDrift_frame by blast
    have cd: "calculateDrift h = (currentTime v - calculateExpectedVideoTime h, h\<lparr> statsRef := s \<rparr>)"
      using calculateDrift_value[OF Some] s by (cases "calculateDrift h") simp
    from assms show ?thesis
      unfolding correctVideoTime_def
      by (auto simp add: Some ctx cd Let_def expected_statsRef expected_frame split: if_splits)
  qed
qed

lemma correct_not_applied:
  assumes "correctVideoTime now thr h = (False, h')"
  shows "lastCorrectionTimeRef h' = lastCorrectionTimeRef h"
proof -
  obtain s where s: "snd (calculateDrift h) = h\<lparr> statsRef := s \<rparr>"
    using calculateDrift_frame by blast
  then have cd: "calculateDrift h = (fst (calculateDrift h), h\<lparr> statsRef := s \<rparr>)"
    by (cases "calculateDrift h") simp
  from assms show ?thesis
    unfolding correctVideoTime_def
    by (subst (asm) cd) (auto simp: Let_def split: option.splits if_splits)
qed

lemma correct_throttled:
  "now - lastCorrectionTimeRef h < CORRECTION_THROTTLE_MS \<Longrightarrow> correctVideoTime now thr h = (False, h)"
  by (simp add: correctVideoTime_def split: option.splits)


lemma correct_throttled_step: "throttled_step now h (correctVideoTime now thr h)"
proof (cases "correctVideoTime now thr h")
  case (Pair b h')
  show ?thesis
  proof (cases b)
    case True
    with Pair correct_applied[of now thr h h'] show ?thesis
      by (auto simp: throttled_step_def)
  next
    case False
    with Pair correct_not_applied[of now thr h h'] show ?thesis
      by (simp add: throttled_step_def)
  qed
qed

lemma throttled_step_last:
  "lastCorrectionTimeRef h1 = lastCorrectionTimeRef h \<Longrightarrow> throttled_step now h1 r \<Longrightarrow> throttled_step now h r"
  by (auto simp: throttled_step_def split: if_splits)

lemma calculateDrift_last:
  "lastCorrectionTimeRef (snd (calculateDrift h)) = lastCorrectionTimeRef h"
  using calculateDrift_frame[of h] by auto

lemma force_throttled_step: "throttled_step now h (forceSync now thr h)"
  using correct_throttled_step[of now h thr]
  by (auto simp: forceSync_def throttled_step_def split: option.splits)

lemma periodic_throttled_step: "throttled_step now h (periodicDriftCheck now thr h)"
proof -
  have "throttled_step now h (correctVideoTime now thr (snd (calculateDrift h)))"
    by (rule throttled_step_last[OF calculateDrift_last correct_throttled_step])
  moreover have "throttled_step now h (False, snd (calculateDrift h))"
    by (simp add: throttled_step_def calculateDrift_last)
  moreover have "throttled_step now h (False, h)"
    by (simp add: throttled_step_def)
  ultimately show ?thesis
    by (simp add: periodicDriftCheck_def Let_def split_beta)
qed

lemma lifecycle_last: "lastCorrectionTimeRef (lifecycleEffect h) = lastCorrectionTimeRef h"
  by (simp add: lifecycleEffect_def startSync_def stopSync_def Let_def split: option.splits)

lemma cueJump_throttled_step: "throttled_step now h (cueJump now thr a c h)"
proof -
  let ?h2 = "lifecycleEffect (h\<lparr> audioStartTimeRef := Some a, cueOffsetRef := c \<rparr>)"
  have l: "lastCorrectionTimeRef ?h2 = lastCorrectionTimeRef h"
    by (simp add: lifecycle_last)
  have "throttled_step now h (forceSync now thr ?h2)"
    by (rule throttled_step_last[OF l force_throttled_step])
  moreover have "throttled_step now h (False, ?h2)"
    by (simp add: throttled_step_def l)
  ultimately show ?thesis
    by (simp add: cueJump_def cueChangeEffect_def Let_def)
qed

lemma getSyncStatus_last: "lastCorrectionTimeRef (getSyncStatus h) = lastCorrectionTimeRef h"
  by (simp add: getSyncStatus_def calculateDrift_last split: option.splits)

lemma step_throttled_step: "throttled_step now h (step now thr a h)"
proof (cases a)
  case ForceSync
  then show ?thesis by (simp add: force_throttled_step)
next
  case PeriodicDriftCheck
  then show ?thesis by (simp add: periodic_throttled_step)
next
  case (CueJump x y)
  then show ?thesis by (simp add: cueJump_throttled_step)
next
  case GetSyncStatus
  then show ?thesis by (simp add: throttled_step_def getSyncStatus_last)
next
  case StartSync
  then show ?thesis by (simp add: throttled_step_def startSync_def split: option.splits)
next
  case StopSync
  then show ?thesis by (simp add: throttled_step_def stopSync_def)
next
  case (World v c s f p)
  then show ?thesis by (simp add: throttled_step_def)
qed

lemma run_spacing:
  "sorted_wrt (\<lambda>t t'. CORRECTION_THROTTLE_MS \<le> t' - t) (fst (run ticks h))
   \<and> (\<forall>t \<in> set (fst (run ticks h)). CORRECTION_THROTTLE_MS \<le> t - lastCorrectionTimeRef h)"
proof (induction ticks arbitrary: h)
  case Nil
  show ?case by simp
next
  case (Cons tick rest)
  obtain now thr a where tick: "tick = (now, thr, a)" by (cases tick)
  obtain b h1 where st: "step now thr a h = (b, h1)" by (cases "step now thr a h")
  obtain log h2 where rn: "run rest h1 = (log, h2)" by (cases "run rest h1")
  have ih: "sorted_wrt (\<lambda>t t'. CORRECTION_THROTTLE_MS \<le> t' - t) log"
    "\<forall>t \<in> set log. CORRECTION_THROTTLE_MS \<le> t - lastCorrectionTimeRef h1"
    using Cons.IH[of h1] rn by simp_all
  have ts: "throttled_step now h (b, h1)"
    using step_throttled_step[of now h thr a] st by simp
  have T: "0 \<le> CORRECTION_THROTTLE_MS" by (simp add: CORRECTION_THROTTLE_MS_def)
  show ?case
  proof (cases b)
    case True
    with ts have "lastCorrectionTimeRef h1 = now" "CORRECTION_THROTTLE_MS \<le> now - lastCorrectionTimeRef h"
      by (simp_all add: throttled_step_def)
    with ih T True show ?thesis
      by (auto simp: tick st rn)
  next
    case False
    with ts have "lastCorrectionTimeRef h1 = lastCorrectionTimeRef h"
      by (simp add: throttled_step_def)
    with ih False show ?thesis
      by (simp add: tick st rn)
  qed
qed

lemma first_correction:
  "correctVideoTime 1000 0.05 rapid_jump_hook =
     (True, rapid_jump_hook
        \<lparr> videoElementRef := Some \<lparr> currentTime = 6.5, duration = Some 120 \<rparr>,
          lastCorrectionTimeRef := 1000,
          statsRef := \<lparr> corrections = 1, maxDrift = 1.5, avgDrift = 1.5, driftHistory = [1.5] \<rparr> \<rparr>)"
  by (simp add: sync_defs rapid_jump_hook_def)


lemma scenario_C_correction:
  "correctVideoTime 1000 0.05 scenario_C_hook =
     (True, scenario_C_hook
        \<lparr> videoElementRef := Some \<lparr> currentTime = 120, duration = Some 120 \<rparr>,
          lastCorrectionTimeRef := 1000,
          statsRef := \<lparr> corrections = 1, maxDrift = 65, avgDrift = 65, driftHistory = [65] \<rparr> \<rparr>)"
  by (simp add: sync_defs scenario_C_hook_def)

lemma zero_duration_correction:
  "correctVideoTime 1000 0.05 zero_duration_hook =
     (True, zero_duration_hook
        \<lparr> videoElementRef := Some \<lparr> currentTime = 5, duration = Some 0 \<rparr>,
          lastCorrectionTimeRef := 1000,
          statsRef := \<lparr> corrections = 1, maxDrift = 5, avgDrift = 5, driftHistory = [5] \<rparr> \<rparr>)"
  by (simp add: sync_defs zero_duration_hook_def)

lemma scenario_D_log: "fst (run scenario_D_run rapid_jump_hook) = [1000, 1100]"
  by (simp add: scenario_D_run_def sync_defs rapid_jump_hook_def)

section \<open>Facts about the drift statistics\<close>

lemma foldl_add_sum_list: "foldl (+) (a::real) xs = a + sum_list xs"
  by (induction xs arbitrary: a) simp_all

lemma push_window:
  "(if length (drop (length xs - 100) xs @ [s]) > 100
    then tl (drop (length xs - 100) xs @ [s]) else drop (length xs - 100) xs @ [s])
   = drop (length (xs @ [s]) - 100) (xs @ [s])"
proof (cases "length xs < 100")
  case True
  then show ?thesis by simp
next
  case False
  then have ne: "drop (length xs - 100) xs \<noteq> []" by simp
  have "tl (drop (length xs - 100) xs @ [s]) = drop (Suc (length xs - 100)) xs @ [s]"
    using ne by (simp add: tl_drop drop_Suc)
  moreover have "Suc (length xs - 100) = length xs - 99" using False by arith
  ultimately show ?thesis using False by simp
qed

lemma driftTick_stats:
  assumes "videoElementRef g \<noteq> None" 
    and "audioStartTimeRef g = audioStartTimeRef h" and "cueOffsetRef g = cueOffsetRef h"
  shows "driftHistory (statsRef (driftTick r g)) =
           (if length (driftHistory (statsRef g) @ [driftSample h r]) > 100
            then tl (driftHistory (statsRef g) @ [driftSample h r])
            else driftHistory (statsRef g) @ [driftSample h r])"
    and "maxDrift (statsRef (driftTick r g)) = max (maxDrift (statsRef g)) (driftSample h r)"
    and "avgDrift (statsRef (driftTick r g)) =
           sum_list (driftHistory (statsRef (driftTick r g)))
             / real (length (driftHistory (statsRef (driftTick r g))))"
    and "videoElementRef (driftTick r g) \<noteq> None"
    and "audioStartTimeRef (driftTick r g) = audioStartTimeRef h"
    and "cueOffsetRef (driftTick r g) = cueOffsetRef h"
  using assms
  by (auto simp: driftTick_def driftSample_def calculateDrift_def calculateExpectedVideoTime_def
      Let_def foldl_add_sum_list split: option.splits)

lemma drift_run_stats:
  assumes v: "videoElementRef h \<noteq> None"
    and reset: "driftHistory (statsRef h) = []" "maxDrift (statsRef h) = 0"
  shows "driftHistory (statsRef (fold driftTick rs h))
           = drop (length rs - 100) (map (driftSample h) rs)
       \<and> maxDrift (statsRef (fold driftTick rs h)) = Max (insert 0 (set (map (driftSample h) rs)))
       \<and> (rs \<noteq> [] \<longrightarrow> avgDrift (statsRef (fold driftTick rs h))
              = sum_list (driftHistory (statsRef (fold driftTick rs h)))
                  / real (length (driftHistory (statsRef (fold driftTick rs h)))))
       \<and> videoElementRef (fold driftTick rs h) \<noteq> None
       \<and> audioStartTimeRef (fold driftTick rs h) = audioStartTimeRef h
       \<and> cueOffsetRef (fold driftTick rs h) = cueOffsetRef h"
proof (induction rs rule: rev_induct)
  case Nil
  show ?case using v reset by simp
next
  case (snoc r rs)
  let ?g = "fold driftTick rs h"
  let ?xs = "map (driftSample h) rs"
  from snoc.IH have g: "videoElementRef ?g \<noteq> None" "audioStartTimeRef ?g = audioStartTimeRef h"
    "cueOffsetRef ?g = cueOffsetRef h"
    and hist: "driftHistory (statsRef ?g) = drop (length ?xs - 100) ?xs"
    and mx: "maxDrift (statsRef ?g) = Max (insert 0 (set ?xs))"
    by simp_all
  note tick = driftTick_stats[OF g, of r]
  have f: "fold driftTick (rs @ [r]) h = driftTick r ?g" by simp
  have "driftHistory (statsRef (driftTick r ?g))
          = drop (length (?xs @ [driftSample h r]) - 100) (?xs @ [driftSample h r])"
    unfolding tick(1) hist by (rule push_window)
  then have 1: "driftHistory (statsRef (driftTick r ?g))
          = drop (length (rs @ [r]) - 100) (map (driftSample h) (rs @ [r]))"
    by simp
  have "Max (insert 0 (set (map (driftSample h) (rs @ [r]))))
          = Max (insert (driftSample h r) (insert 0 (set ?xs)))"
    by (simp add: insert_commute)
  also have "\<dots> = max (driftSample h r) (Max (insert 0 (set ?xs)))"
    by (rule Max_insert) simp_all
  finally have 2: "maxDrift (statsRef (driftTick r ?g))
          = Max (insert 0 (set (map (driftSample h) (rs @ [r]))))"
    unfolding tick(2) mx by (simp only: max.commute)
  show ?case
    unfolding f using 1 2 tick(3-6) by simp
qed

section \<open>Facts about the cue registry\<close>

lemma mset_insert_by_time: "mset (insert_by_time c ds) = add_mset c (mset ds)"
  by (induction ds) simp_all

lemma mset_sort_by_time: "mset (sort_by_time cs) = mset cs"
  by (induction cs) (simp_all add: sort_by_time_def mset_insert_by_time)

lemma set_insert_by_time: "set (insert_by_time c ds) = insert c (set ds)"
  by (induction ds) auto

lemma time_le_trans: "time_le a b \<Longrightarrow> time_le b c \<Longrightarrow> time_le a c"
  by (auto simp: time_le_def split: option.splits)

lemma not_sorts_after: "time a \<noteq> None \<Longrightarrow> time b \<noteq> None \<Longrightarrow> \<not> sorts_after a b \<longleftrightarrow> time_le a b"
  by (auto simp: time_le_def sorts_after_def split: option.splits)

lemma sorts_after_time_le: "sorts_after a b \<Longrightarrow> time_le b a"
  by (auto simp: time_le_def sorts_after_def split: option.splits)

lemma sorted_insert_by_time:
  assumes "time c \<noteq> None" and "\<forall>d \<in> set ds. time d \<noteq> None" and "sorted_wrt time_le ds"
  shows "sorted_wrt time_le (insert_by_time c ds)"
  using assms
proof (induction ds)
  case Nil
  then show ?case by simp
next
  case (Cons d ds)
  show ?case
  proof (cases "sorts_after c d")
    case True
    have "sorted_wrt time_le (insert_by_time c ds)"
      using Cons by simp
    moreover have "\<forall>x \<in> set (insert_by_time c ds). time_le d x"
      using Cons.prems(3) True by (auto simp: set_insert_by_time sorts_after_time_le)
    ultimately show ?thesis using True by simp
  next
    case False
    then have cd: "time_le c d"
      using Cons.prems(1,2) by (simp add: not_sorts_after[symmetric])
    then have "\<forall>x \<in> set ds. time_le c x"
      using Cons.prems(3) by (auto intro: time_le_trans)
    with cd False Cons.prems(3) show ?thesis by simp
  qed
qed

lemma sorted_sort_by_time:
  "\<forall>d \<in> set cs. time d \<noteq> None \<Longrightarrow> sorted_wrt time_le (sort_by_time cs)"
proof (induction cs)
  case Nil
  show ?case by (simp add: sort_by_time_def)
next
  case (Cons c cs)
  have s: "set (sort_by_time cs) = set cs"
    using mset_sort_by_time[of cs] by (metis set_mset_mset)
  have "sorted_wrt time_le (insert_by_time c (sort_by_time cs))"
    using Cons s by (intro sorted_insert_by_time) simp_all
  then show ?case by (simp add: sort_by_time_def)
qed

lemma sort_by_time_sorted: "sorted_wrt time_le cs \<Longrightarrow> sort_by_time cs = cs"
proof (induction cs)
  case Nil
  show ?case by (simp add: sort_by_time_def)
next
  case (Cons c cs)
  then have ih: "sort_by_time cs = cs" by simp
  have "insert_by_time c cs = c # cs"
  proof (cases cs)
    case Nil
    then show ?thesis by simp
  next
    case (Cons d ds)
    with Cons.prems have "time_le c d" by simp
    then have "\<not> sorts_after c d"
      by (auto simp: time_le_def sorts_after_def split: option.splits)
    with Cons show ?thesis by simp
  qed
  with ih show ?case by (simp add: sort_by_time_def)
qed

lemma findIndex_from_None: "findIndex_from i P xs = None \<longleftrightarrow> (\<forall>j < length xs. \<not> P (xs ! j) (i + j))"
proof (induction xs arbitrary: i)
  case Nil
  show ?case by simp
next
  case (Cons x xs)
  show ?case
    by (auto simp: Cons.IH less_Suc_eq_0_disj)
qed

lemma findIndex_None: "findIndex P xs = None \<longleftrightarrow> (\<forall>j < length xs. \<not> P (xs ! j) j)"
  by (simp add: findIndex_def findIndex_from_None)

lemma importedCue_persisted: "persisted_form sr c \<Longrightarrow> importedCue sr c = c"
  by (cases c) (auto simp: persisted_form_def importedCue_def string_or_def number_or_def
      split: option.splits)

lemma persisted_not_missing: "persisted_form sr c \<Longrightarrow> \<not> missing_time_or_label c"
  by (auto simp: missing_time_or_label_def persisted_form_def split: option.splits)

lemma roundtrip_persisted:
  assumes "\<forall>c \<in> set X. persisted_form sampleRate c" and "sorted_by_time X"
  shows "loadCuesFromJSON sampleRate (saveCuesToJSON X) = Inr X"
proof -
  have "findIndex (\<lambda>c index. missing_time_or_label c) X = None"
    unfolding findIndex_None using assms(1) persisted_not_missing nth_mem by blast
  moreover have "map (importedCue sampleRate) X = X"
    using assms(1) by (simp add: importedCue_persisted map_idI)
  ultimately show ?thesis
    using assms(2)
    by (simp add: loadCuesFromJSON_def saveCuesToJSON_def sort_by_time_sorted sorted_by_time_def)
qed

lemma intro_cue_import:
  "loadCuesFromJSON 48000 (saveCuesToJSON [intro_cue])
     = Inr [intro_cue\<lparr> sample_rate := Some 48000, sample_position := Some 240000 \<rparr>]"
  by (simp add: loadCuesFromJSON_def saveCuesToJSON_def intro_cue_def findIndex_def
      missing_time_or_label_def importedCue_def sort_by_time_def string_or_def number_or_def
      calculateSamplePosition_def Math_round_def)

lemma imported_persisted:
  "\<not> missing_time_or_label c \<Longrightarrow> persisted_form sr (importedCue sr c)"
  by (auto simp: missing_time_or_label_def persisted_form_def importedCue_def number_or_def
      split: option.splits)

lemma persisted_time: "persisted_form sr c \<Longrightarrow> time c \<noteq> None"
  by (auto simp: persisted_form_def split: option.splits)

lemma load_result_form:
  assumes "loadCuesFromJSON sr f = Inr X"
  shows "(\<forall>c \<in> set X. persisted_form sr c) \<and> sorted_by_time X"
proof -
  from assms obtain loaded where f: "f = CueArray loaded"
    and ok: "findIndex (\<lambda>c index. missing_time_or_label c) loaded = None"
    and X: "X = sort_by_time (map (importedCue sr) loaded)"
    by (auto simp: loadCuesFromJSON_def split: json_file.splits option.splits)
  have all: "\<forall>c \<in> set (map (importedCue sr) loaded). persisted_form sr c"
    using ok by (auto simp: findIndex_None in_set_conv_nth imported_persisted)
  have "set X = set (map (importedCue sr) loaded)"
    unfolding X using mset_sort_by_time by (metis set_mset_mset)
  with all have 1: "\<forall>c \<in> set X. persisted_form sr c" by simp
  have "sorted_wrt time_le X"
    unfolding X using all by (intro sorted_sort_by_time) (auto dest: persisted_time)
  with 1 show ?thesis by (simp add: sorted_by_time_def)
qed

lemma sort_array_dense: "sort_array_by_time (map Some cs) = map Some (sort_by_time cs)"
proof -
  have "List.map_filter id (map Some cs) = cs"
    by (induction cs) (simp_all add: List.map_filter_simps)
  then show ?thesis by (simp add: sort_array_by_time_def)
qed

lemma findIndex_Some_iff: "findIndex P xs \<noteq> None \<longleftrightarrow> (\<exists>j < length xs. P (xs ! j) j)"
  by (simp add: findIndex_None)

lemma time_edit_needs_index:
  assumes "no_errors (validateCue d cs (editedCue sr cs i (EditTime t)) i)"
  shows "i < length cs"
proof (rule ccontr)
  assume "\<not> i < length cs"
  then have "label (editedCue sr cs i (EditTime t)) = None"
    by (simp add: editedCue_def empty_cue_def)
  with assms show False by (simp add: no_errors_def validateCue_def)
qed

lemmas registry_defs = updateCue_def editedCue_def validateCue_def no_errors_def findIndex_def
  array_assign_def sort_array_by_time_def sort_by_time_def sorts_after_def is_time_edit_def
  trim_def is_whitespace_def calculateSamplePosition_def Math_round_def empty_cue_def Let_def
  List.map_filter_simps

lemma move_verse:
  "updateCue 120 48000 [verse_cue, chorus_cue] 0 (EditTime 40)
     = (\<lparr> time_error = None, label_error = False, key_error = None \<rparr>,
        Some [Some chorus_cue,
              Some (verse_cue\<lparr> time := Some 40, sample_position := Some 1920000 \<rparr>)])"
  by (simp add: registry_defs verse_cue_def chorus_cue_def)

lemma rebind_verse:
  "updateCue 120 48000 [verse_cue, chorus_cue] 0 (EditKey ''3'')
     = (\<lparr> time_error = None, label_error = False, key_error = Some 1 \<rparr>, None)"
  by (simp add: registry_defs verse_cue_def chorus_cue_def)

section \<open>Facts about key dispatch\<close>

lemma toLowerCase_char_idem: "toLowerCase_char (toLowerCase_char c) = toLowerCase_char c"
  by (simp add: toLowerCase_char_def)

lemma toLowerCase_idem: "toLowerCase (toLowerCase s) = toLowerCase s"
  by (simp add: toLowerCase_def toLowerCase_char_idem)

lemma buildKeyMap_from_lookup:
  "fst (buildKeyMap_from n cs (m, ds)) k
     = (case m k of Some v \<Rightarrow> Some v | None \<Rightarrow> first_bound n k cs)"
proof (induction cs arbitrary: n m ds)
  case Nil
  show ?case by (simp split: option.splits)
next
  case (Cons c cs)
  show ?case
  proof (cases "key c")
    case None
    then show ?thesis by (simp add: Cons.IH binds_def split: option.splits)
  next
    case (Some x)
    show ?thesis
    proof (cases "x = []")
      case True
      with Some show ?thesis by (simp add: Cons.IH binds_def split: option.splits)
    next
      case False
      show ?thesis
      proof (cases "m (toLowerCase x)")
        case None
        with Some False show ?thesis
          by (auto simp: Cons.IH binds_def Let_def split: option.splits)
      next
        case (Some v)
        with \<open>key c = Some x\<close> False show ?thesis
          by (auto simp: Cons.IH binds_def Let_def split: option.splits)
      qed
    qed
  qed
qed

lemma buildKeyMap_lookup: "fst (buildKeyMap cs) k = first_bound 0 k cs"
  by (simp add: buildKeyMap_def buildKeyMap_from_lookup)

lemma first_bound_first:
  assumes "i < length cs" and "binds k (cs ! i)" and "\<forall>n < i. \<not> binds k (cs ! n)"
  shows "first_bound m k cs = Some (cs ! i, m + i)"
  using assms
proof (induction cs arbitrary: m i)
  case Nil
  then show ?case by simp
next
  case (Cons c cs)
  show ?case
  proof (cases i)
    case 0
    with Cons.prems show ?thesis by simp
  next
    case (Suc i')
    with Cons.prems have nb: "\<not> binds k c" by auto
    have "first_bound (Suc m) k cs = Some (cs ! i', Suc m + i')"
      using Cons.prems Suc by (intro Cons.IH) auto
    with nb Suc show ?thesis by simp
  qed
qed

lemma shouldIgnoreEvent_eventKey:
  "shouldIgnoreEvent enabled excludeTargets (e\<lparr> eventKey := k \<rparr>)
     = shouldIgnoreEvent enabled excludeTargets e"
  by (simp add: shouldIgnoreEvent_def)

lemma validate_key_unique:
  assumes "key c = Some k" and "\<forall>n < length cs. n \<noteq> index \<longrightarrow> key (cs ! n) \<noteq> Some k"
  shows "key_error (validateCue d cs c index) = None"
  using assms by (auto simp: validateCue_def findIndex_None)

lemma toLowerCase_examples:
  "toLowerCase ''A'' = ''a''" "toLowerCase ''a'' = ''a''" "toLowerCase ''2'' = ''2''"
  "toLowerCase ''BODY'' = ''body''"
  by code_simp+

lemmas keyboard_defs = handleKeyPress_def shouldIgnoreEvent_def mountKeyboard_def buildKeyMap_def
  toLowerCase_examples set_add_def binds_def Let_def

lemma first_press:
  "handleKeyPress True UnifiedVideoEditor_debounceMs default_excludeTargets 1000 plain_a_event
      (mountKeyboard [lower_a_cue])
     = (Some (lower_a_cue, 0),
        \<lparr> keyMapRef = [''a'' \<mapsto> (lower_a_cue, 0)],
          lastTriggerRef = [''a'' \<mapsto> 1000],
          triggerStatsRef = \<lparr> totalTriggers = 1, triggersByKey = (\<lambda>_. 0)(''a'' := 1),
                              lastTriggerTime = Some 1000 \<rparr> \<rparr>)"
  by (simp add: keyboard_defs plain_a_event_def lower_a_cue_def default_excludeTargets_def)

section \<open>The clock model\<close>

text \<open>
  C1. With a context attached and a start time set, the expected follower position is
  \<open>max 0 (offset + (now - origin))\<close>; it is never negative, and for a fixed origin and
  offset it does not decrease when the master clock advances.
\<close>

theorem expected_position_formula:
  "calculateExpectedVideoTime
      (h\<lparr> contextRef := Some now, audioStartTimeRef := Some origin, cueOffsetRef := offset \<rparr>)
     = max 0 (offset + (now - origin))
   \<and> 0 \<le> calculateExpectedVideoTime h
   \<and> (now \<le> now' \<longrightarrow>
        calculateExpectedVideoTime
          (h\<lparr> contextRef := Some now, audioStartTimeRef := Some origin, cueOffsetRef := offset \<rparr>)
        \<le> calculateExpectedVideoTime
          (h\<lparr> contextRef := Some now', audioStartTimeRef := Some origin, cueOffsetRef := offset \<rparr>))"
  by (auto simp: calculateExpectedVideoTime_def Let_def split: option.splits)

theorem expected_position_formula_witness:
  "calculateExpectedVideoTime
      (rapid_jump_hook\<lparr> contextRef := Some 11.5, audioStartTimeRef := Some 10, cueOffsetRef := 5 \<rparr>)
     = 6.5
   \<and> 0 \<le> calculateExpectedVideoTime rapid_jump_hook
   \<and> (11.5::real) \<le> 13
   \<and> calculateExpectedVideoTime
        (rapid_jump_hook\<lparr> contextRef := Some 11.5, audioStartTimeRef := Some 10, cueOffsetRef := 5 \<rparr>)
      \<le> calculateExpectedVideoTime
        (rapid_jump_hook\<lparr> contextRef := Some 13, audioStartTimeRef := Some 10, cueOffsetRef := 5 \<rparr>)"
  using expected_position_formula
          [where h = rapid_jump_hook and now = "11.5" and origin = 10 and offset = 5 and now' = 13]
  by simp

section \<open>The playback state machine: a jump while playing\<close>

text \<open>
  C2. The claim: whenever a jump takes effect while playing, a correction pass is forced
  that the throttle does not hold back. The code at the test file's rapid cue jump: a
  correction is applied at wall-clock time 1000; 40 ms later a jump to offset 25.0 takes
  effect (the audio restarted at clock value 13.0). The cue-change effect calls
  \<open>forceSync\<close>, which goes through the throttle check of \<open>correctVideoTime\<close>: nothing
  is corrected, and the video stays at 6.5 while the expected position is 25.0. The
  same jump 100 ms after the correction does move the video to 25.0.
\<close>

theorem cue_jump_forced_sync_is_throttled:
  "fst (correctVideoTime 1000 0.05 rapid_jump_hook)
   \<and> \<not> fst (cueJump 1040 0.05 13 25
              ((snd (correctVideoTime 1000 0.05 rapid_jump_hook))\<lparr> contextRef := Some 13 \<rparr>))
   \<and> videoCurrentTime
        (snd (cueJump 1040 0.05 13 25
                ((snd (correctVideoTime 1000 0.05 rapid_jump_hook))\<lparr> contextRef := Some 13 \<rparr>)))
       = Some 6.5
   \<and> calculateExpectedVideoTime
        (snd (cueJump 1040 0.05 13 25
                ((snd (correctVideoTime 1000 0.05 rapid_jump_hook))\<lparr> contextRef := Some 13 \<rparr>)))
       = 25
   \<and> videoCurrentTime
        (snd (cueJump 1100 0.05 13 25
                ((snd (correctVideoTime 1000 0.05 rapid_jump_hook))\<lparr> contextRef := Some 13 \<rparr>)))
       = Some 25"
  by (simp add: first_correction) (simp add: sync_defs rapid_jump_hook_def)

section \<open>The correction controller\<close>

text \<open>
  C3, as amended. An issued correction puts the follower at the expected position
  clamped to the duration, \<open>min expected (duration || expected)\<close>. So the new position
  is within 0.01 of the expected position whenever the expected position does not
  exceed the duration by more than 0.01 (or the duration is 0 or NaN).
\<close>

theorem correction_lands_on_clamped_expected:
  assumes "correctVideoTime now thr h = (True, h')" and "videoElementRef h = Some v"
  shows "\<exists>p. videoCurrentTime h' = Some p
       \<and> p = min (calculateExpectedVideoTime h') (duration_or (duration v) (calculateExpectedVideoTime h'))
       \<and> (calculateExpectedVideoTime h' \<le> duration_or (duration v) (calculateExpectedVideoTime h') + 0.01
            \<longrightarrow> \<bar>p - calculateExpectedVideoTime h'\<bar> \<le> 0.01)"
  using correct_applied[OF assms(1)] assms(2)
  by (auto simp: videoCurrentTime_def)

theorem correction_lands_on_clamped_expected_witness:
  "correctVideoTime 1000 0.05 rapid_jump_hook = (True, snd (correctVideoTime 1000 0.05 rapid_jump_hook))
   \<and> videoElementRef rapid_jump_hook = Some \<lparr> currentTime = 5, duration = Some 120 \<rparr>
   \<and> calculateExpectedVideoTime (snd (correctVideoTime 1000 0.05 rapid_jump_hook))
        \<le> duration_or (Some 120) (calculateExpectedVideoTime (snd (correctVideoTime 1000 0.05 rapid_jump_hook)))
            + 0.01
   \<and> (\<exists>p. videoCurrentTime (snd (correctVideoTime 1000 0.05 rapid_jump_hook)) = Some p
          \<and> \<bar>p - calculateExpectedVideoTime (snd (correctVideoTime 1000 0.05 rapid_jump_hook))\<bar> \<le> 0.01)
   \<and> videoCurrentTime (snd (correctVideoTime 1000 0.05 rapid_jump_hook)) = Some 6.5
   \<and> calculateExpectedVideoTime (snd (correctVideoTime 1000 0.05 rapid_jump_hook)) = 6.5"
proof -
  let ?h' = "snd (correctVideoTime 1000 0.05 rapid_jump_hook)"
  let ?v = "\<lparr> currentTime = 5, duration = Some 120 \<rparr>"
  have a: "correctVideoTime 1000 0.05 rapid_jump_hook = (True, ?h')"
    by (simp only: first_correction snd_conv)
  have b: "videoElementRef rapid_jump_hook = Some ?v"
    by (simp add: rapid_jump_hook_def)
  have e: "calculateExpectedVideoTime ?h' = 6.5"
    by (simp only: first_correction snd_conv) (simp add: sync_defs rapid_jump_hook_def)
  have c: "calculateExpectedVideoTime ?h' \<le> duration_or (Some 120) (calculateExpectedVideoTime ?h') + 0.01"
    by (simp only: e) (simp add: duration_or_def)
  have p: "videoCurrentTime ?h' = Some 6.5"
    by (simp only: first_correction snd_conv) (simp add: sync_defs rapid_jump_hook_def)
  from correction_lands_on_clamped_expected [OF a b] c
  have "\<exists>p. videoCurrentTime ?h' = Some p \<and> \<bar>p - calculateExpectedVideoTime ?h'\<bar> \<le> 0.01"
    by auto
  with a b c e p show ?thesis by blast
qed

text \<open>
  C3 as stated fails where the clamp is active: with a duration of 120.0 and an
  expected position of 165.0 the correction is issued and the follower lands on 120.0,
  45 seconds from the expected position.
\<close>

theorem correction_epsilon_counterexample:
  "fst (correctVideoTime 1000 0.05 scenario_C_hook)
   \<and> videoCurrentTime (snd (correctVideoTime 1000 0.05 scenario_C_hook)) = Some 120
   \<and> calculateExpectedVideoTime (snd (correctVideoTime 1000 0.05 scenario_C_hook)) = 165
   \<and> \<not> \<bar>120 - 165\<bar> \<le> (0.01 :: real)"
  by (simp add: scenario_C_correction) (simp add: sync_defs scenario_C_hook_def)


text \<open>
  C4, as amended. When the follower reports a positive duration, the target of an
  issued correction lies in \<open>[0, duration]\<close>; with a duration of 120.0 and an expected
  position of 165.0 the target is 120.0.
\<close>

theorem corrected_target_in_range:
  assumes "correctVideoTime now thr h = (True, h')" and "videoElementRef h = Some v"
    and "duration v = Some d" and "0 < d"
  shows "(\<exists>p. videoCurrentTime h' = Some p \<and> 0 \<le> p \<and> p \<le> d)
       \<and> calculateExpectedVideoTime scenario_C_hook = 165
       \<and> videoCurrentTime (snd (correctVideoTime 1000 0.05 scenario_C_hook)) = Some 120"
proof -
  have "0 \<le> calculateExpectedVideoTime h"
    by (simp add: calculateExpectedVideoTime_def Let_def split: option.splits)
  then have "\<exists>p. videoCurrentTime h' = Some p \<and> 0 \<le> p \<and> p \<le> d"
    using correct_applied[OF assms(1)] assms(2-4)
    by (auto simp: videoCurrentTime_def duration_or_def)
  moreover have "calculateExpectedVideoTime scenario_C_hook = 165"
    by (simp add: sync_defs scenario_C_hook_def)
  moreover have "videoCurrentTime (snd (correctVideoTime 1000 0.05 scenario_C_hook)) = Some 120"
    by (simp add: scenario_C_correction) (simp add: sync_defs scenario_C_hook_def)
  ultimately show ?thesis by simp
qed

theorem corrected_target_in_range_witness:
  "correctVideoTime 1000 0.05 scenario_C_hook = (True, snd (correctVideoTime 1000 0.05 scenario_C_hook))
   \<and> videoElementRef scenario_C_hook = Some \<lparr> currentTime = 100, duration = Some 120 \<rparr>
   \<and> duration \<lparr> currentTime = 100, duration = Some 120 \<rparr> = Some 120
   \<and> (0::real) < 120
   \<and> (\<exists>p. videoCurrentTime (snd (correctVideoTime 1000 0.05 scenario_C_hook)) = Some p
          \<and> 0 \<le> p \<and> p \<le> 120)"
proof -
  let ?h' = "snd (correctVideoTime 1000 0.05 scenario_C_hook)"
  let ?v = "\<lparr> currentTime = 100, duration = Some 120 \<rparr>"
  have a: "correctVideoTime 1000 0.05 scenario_C_hook = (True, ?h')"
    by (simp only: scenario_C_correction snd_conv)
  have b: "videoElementRef scenario_C_hook = Some ?v"
    by (simp add: scenario_C_hook_def)
  have c: "duration ?v = Some 120" by simp
  have d: "(0::real) < 120" by simp
  from corrected_target_in_range [OF a b c d] a b c d show ?thesis by blast
qed

text \<open>
  C4 as stated fails for a follower that reports the duration 0 (and for NaN, which is
  falsy as well): \<open>video.duration || expectedTime\<close> then yields the expected position,
  and the correction goes to 5.0, beyond the duration.
\<close>

theorem corrected_target_in_range_counterexample:
  "fst (correctVideoTime 1000 0.05 zero_duration_hook)
   \<and> map_option duration (videoElementRef zero_duration_hook) = Some (Some 0)
   \<and> videoCurrentTime (snd (correctVideoTime 1000 0.05 zero_duration_hook)) = Some 5
   \<and> \<not> (5 :: real) \<le> 0"
  by (simp add: zero_duration_correction) (simp add: sync_defs zero_duration_hook_def)

text \<open>
  C5. In every run of the hook, any two applied corrections are at least 100 ms of wall
  clock apart; and a call made less than 100 ms after an applied correction applies
  nothing and leaves the hook as it is.
\<close>

theorem corrections_spaced_by_throttle:
  "sorted_wrt (\<lambda>t t'. 100 \<le> t' - t) (fst (run ticks h))
   \<and> (fst (correctVideoTime now thr h) \<longrightarrow> now' - now < 100 \<longrightarrow>
        correctVideoTime now' thr' (snd (correctVideoTime now thr h))
          = (False, snd (correctVideoTime now thr h)))"
proof -
  have "sorted_wrt (\<lambda>t t'. 100 \<le> t' - t) (fst (run ticks h))"
    using run_spacing[of ticks h] by (simp add: CORRECTION_THROTTLE_MS_def)
  moreover have "correctVideoTime now' thr' (snd (correctVideoTime now thr h))
          = (False, snd (correctVideoTime now thr h))"
    if "fst (correctVideoTime now thr h)" "now' - now < 100"
  proof -
    have "lastCorrectionTimeRef (snd (correctVideoTime now thr h)) = now"
      using correct_throttled_step[of now h thr] that(1) by (simp add: throttled_step_def)
    with that(2) show ?thesis
      by (intro correct_throttled) (simp add: CORRECTION_THROTTLE_MS_def)
  qed
  ultimately show ?thesis by blast
qed

theorem corrections_spaced_by_throttle_witness:
  "fst (correctVideoTime 1000 0.05 rapid_jump_hook) \<and> (1040 - 1000 < (100::real))
   \<and> correctVideoTime 1040 0.05 (snd (correctVideoTime 1000 0.05 rapid_jump_hook))
       = (False, snd (correctVideoTime 1000 0.05 rapid_jump_hook))
   \<and> sorted_wrt (\<lambda>t t'. 100 \<le> t' - t) (fst (run scenario_D_run rapid_jump_hook))
   \<and> fst (run scenario_D_run rapid_jump_hook) = [1000, 1100]"
proof -
  note t = corrections_spaced_by_throttle [of scenario_D_run rapid_jump_hook 1000 "0.05" 1040 "0.05"]
  have a: "fst (correctVideoTime 1000 0.05 rapid_jump_hook)"
    by (simp only: first_correction fst_conv)
  have b: "1040 - 1000 < (100::real)" by simp
  from t a b show ?thesis by (simp only: scenario_D_log)
qed

section \<open>The drift monitor\<close>

text \<open>
  C6, as amended. After every tick of the drift monitor since the statistics were reset,
  the history holds the last 100 absolute drift samples at most (the oldest is evicted
  beyond that), \<open>avgDrift\<close> is the average of the samples held, and \<open>maxDrift\<close> is
  the maximum of all absolute drift samples taken since the reset, evicted ones
  included.
\<close>

theorem drift_statistics_after_ticks:
  assumes "videoElementRef h \<noteq> None" and "contextRef h \<noteq> None"
  shows "driftHistory (statsRef (fold driftTick rs (startSync h)))
           = drop (length rs - 100) (map (driftSample h) rs)
       \<and> length (driftHistory (statsRef (fold driftTick rs (startSync h)))) \<le> 100
       \<and> (rs \<noteq> [] \<longrightarrow>
            avgDrift (statsRef (fold driftTick rs (startSync h)))
              = sum_list (driftHistory (statsRef (fold driftTick rs (startSync h))))
                  / real (length (driftHistory (statsRef (fold driftTick rs (startSync h)))))
          \<and> maxDrift (statsRef (fold driftTick rs (startSync h)))
              = Max (set (map (driftSample h) rs)))"
proof -
  let ?h0 = "startSync h"
  have h0: "videoElementRef ?h0 \<noteq> None" "driftHistory (statsRef ?h0) = []"
    "maxDrift (statsRef ?h0) = 0"
    using assms by (auto simp: startSync_def)
  have s0: "driftSample ?h0 = driftSample h"
    using assms by (auto simp: startSync_def driftSample_def calculateExpectedVideoTime_def fun_eq_iff
        split: option.splits)
  note run = drift_run_stats[OF h0, of rs, unfolded s0]
  have "Max (insert 0 (set (map (driftSample h) rs))) = Max (set (map (driftSample h) rs))"
    if ne: "rs \<noteq> []"
  proof -
    obtain r where "r \<in> set rs" using ne by (cases rs) auto
    then have "0 \<le> driftSample h r" "driftSample h r \<le> Max (set (map (driftSample h) rs))"
      by (simp_all add: driftSample_def)
    then have "0 \<le> Max (set (map (driftSample h) rs))" by linarith
    moreover have "Max (insert 0 (set (map (driftSample h) rs)))
        = max 0 (Max (set (map (driftSample h) rs)))"
      using ne by (intro Max_insert) simp_all
    ultimately show ?thesis by simp
  qed
  with run show ?thesis by simp
qed

theorem drift_statistics_after_ticks_witness:
  "videoElementRef rapid_jump_hook \<noteq> None \<and> contextRef rapid_jump_hook \<noteq> None
   \<and> [(15, 30), (25, 30 :: real)] \<noteq> []
   \<and> driftHistory (statsRef (fold driftTick [(15, 30), (25, 30)] (startSync rapid_jump_hook))) = [10, 0]
   \<and> avgDrift (statsRef (fold driftTick [(15, 30), (25, 30)] (startSync rapid_jump_hook))) = 5
   \<and> maxDrift (statsRef (fold driftTick [(15, 30), (25, 30)] (startSync rapid_jump_hook))) = 10"
  using drift_statistics_after_ticks[of rapid_jump_hook "[(15, 30), (25, 30)]"]
  by (simp add: rapid_jump_hook_def driftSample_def calculateExpectedVideoTime_def)

text \<open>
  C6 as stated fails once the largest sample has been evicted: after one tick with a
  drift of 10 seconds and 100 ticks in sync, the history holds 100 zeros, and
  \<open>maxDrift\<close> is still 10.
\<close>

theorem max_drift_of_history_counterexample:
  "maxDrift (statsRef (fold driftTick evicted_peak_run (startSync rapid_jump_hook))) = 10
   \<and> driftHistory (statsRef (fold driftTick evicted_peak_run (startSync rapid_jump_hook)))
        = replicate 100 0
   \<and> maxDrift (statsRef (fold driftTick evicted_peak_run (startSync rapid_jump_hook)))
        \<noteq> Max (set (driftHistory (statsRef (fold driftTick evicted_peak_run (startSync rapid_jump_hook)))))"
proof -
  let ?h0 = "startSync rapid_jump_hook"
  have h0: "videoElementRef ?h0 \<noteq> None" "driftHistory (statsRef ?h0) = []"
    "maxDrift (statsRef ?h0) = 0"
    by (simp_all add: startSync_def rapid_jump_hook_def)
  have a: "driftSample ?h0 (15, 30) = 10" and b: "driftSample ?h0 (25, 30) = 0"
    by (simp_all add: driftSample_def startSync_def rapid_jump_hook_def calculateExpectedVideoTime_def)
  note run = drift_run_stats[OF h0, of evicted_peak_run]
  have "map (driftSample ?h0) evicted_peak_run = 10 # replicate 100 0"
    by (simp add: evicted_peak_run_def a b)
  with run have 1: "driftHistory (statsRef (fold driftTick evicted_peak_run ?h0)) = replicate 100 0"
    and 2: "maxDrift (statsRef (fold driftTick evicted_peak_run ?h0)) = 10"
    by (simp_all add: evicted_peak_run_def)
  show ?thesis unfolding 1 2 by simp
qed

section \<open>The cue registry: update\<close>

text \<open>
  C7. For every \<open>update (index, field, value)\<close>: the errors of validating the modified
  record are reported; a time outside \<open>[0, duration]\<close>, an empty label, or a key that
  another cue already uses is an error; when there is an error, \<open>onUpdate\<close> is not
  called, so the registry stays as it is; and when there is none and the field is
  \<open>time\<close>, the committed array is the registry with the modified record in place,
  sorted ascending by time.
\<close>

theorem update_rejects_or_sorts:
  "fst (updateCue d sr cs i e) = validateCue d cs (editedCue sr cs i e) i
   \<and> ((\<exists>t. time (editedCue sr cs i e) = Some t \<and> (t < 0 \<or> d < t))
        \<or> label (editedCue sr cs i e) = Some []
        \<or> (\<exists>k j. key (editedCue sr cs i e) = Some k \<and> k \<noteq> [] \<and> j < length cs \<and> j \<noteq> i
                  \<and> key (cs ! j) = Some k)
       \<longrightarrow> \<not> no_errors (validateCue d cs (editedCue sr cs i e) i))
   \<and> (\<not> no_errors (validateCue d cs (editedCue sr cs i e) i)
       \<longrightarrow> snd (updateCue d sr cs i e) = None)
   \<and> (no_errors (validateCue d cs (editedCue sr cs i e) i) \<and> is_time_edit e
        \<and> (\<forall>c \<in> set cs. time c \<noteq> None)
       \<longrightarrow> (\<exists>out. snd (updateCue d sr cs i e) = Some (map Some out)
                 \<and> sorted_by_time out
                 \<and> mset out = mset (cs[i := editedCue sr cs i e])))"
proof -
  let ?c = "editedCue sr cs i e"
  let ?errs = "validateCue d cs ?c i"
  have 1: "fst (updateCue d sr cs i e) = ?errs"
    by (simp add: updateCue_def Let_def)
  have 2: "\<not> no_errors ?errs"
    if "(\<exists>t. time ?c = Some t \<and> (t < 0 \<or> d < t)) \<or> label ?c = Some []
        \<or> (\<exists>k j. key ?c = Some k \<and> k \<noteq> [] \<and> j < length cs \<and> j \<noteq> i \<and> key (cs ! j) = Some k)"
    using that
  proof (elim disjE)
    assume "\<exists>t. time ?c = Some t \<and> (t < 0 \<or> d < t)"
    then have "time_error ?errs \<noteq> None" by (auto simp: validateCue_def)
    then show ?thesis by (simp add: no_errors_def)
  next
    assume "label ?c = Some []"
    then have "label_error ?errs" by (simp add: validateCue_def)
    then show ?thesis by (simp add: no_errors_def)
  next
    assume "\<exists>k j. key ?c = Some k \<and> k \<noteq> [] \<and> j < length cs \<and> j \<noteq> i \<and> key (cs ! j) = Some k"
    then obtain k j where k: "key ?c = Some k" "k \<noteq> []" and j: "j < length cs" "j \<noteq> i" "key (cs ! j) = Some k"
      by blast
    from j have "findIndex (\<lambda>other n. n \<noteq> i \<and> key other = Some k) cs \<noteq> None"
      unfolding findIndex_Some_iff by blast
    with k have "key_error ?errs \<noteq> None" by (simp add: validateCue_def)
    then show ?thesis by (simp add: no_errors_def)
  qed
  have 3: "snd (updateCue d sr cs i e) = None" if "\<not> no_errors ?errs"
    using that by (simp add: updateCue_def Let_def)
  have 4: "\<exists>out. snd (updateCue d sr cs i e) = Some (map Some out) \<and> sorted_by_time out
                 \<and> mset out = mset (cs[i := ?c])"
    if ok: "no_errors ?errs" and te: "is_time_edit e" and times: "\<forall>c \<in> set cs. time c \<noteq> None"
  proof -
    from te obtain t where e: "e = EditTime t" by (cases e) (simp_all add: is_time_edit_def)
    have i: "i < length cs" using ok time_edit_needs_index unfolding e by blast
    have tc: "time ?c \<noteq> None" by (simp add: e editedCue_def Let_def)
    have all: "\<forall>x \<in> set (cs[i := ?c]). time x \<noteq> None"
      using times tc by (auto dest!: set_update_subset_insert[THEN subsetD])
    have "snd (updateCue d sr cs i e) = Some (map Some (sort_by_time (cs[i := ?c])))"
      using ok te i by (simp add: updateCue_def Let_def array_assign_def sort_array_dense)
    moreover have "sorted_by_time (sort_by_time (cs[i := ?c]))"
      using all by (simp add: sorted_by_time_def sorted_sort_by_time)
    ultimately show ?thesis using mset_sort_by_time by blast
  qed
  from 1 2 3 4 show ?thesis by blast
qed

theorem update_rejects_or_sorts_witness:
  "no_errors (validateCue 120 [verse_cue, chorus_cue] (editedCue 48000 [verse_cue, chorus_cue] 0 (EditTime 40)) 0)
   \<and> is_time_edit (EditTime 40)
   \<and> time verse_cue \<noteq> None \<and> time chorus_cue \<noteq> None
   \<and> (\<exists>out. snd (updateCue 120 48000 [verse_cue, chorus_cue] 0 (EditTime 40)) = Some (map Some out)
         \<and> sorted_by_time out
         \<and> mset out = mset ([verse_cue, chorus_cue]
                               [0 := editedCue 48000 [verse_cue, chorus_cue] 0 (EditTime 40)]))
   \<and> snd (updateCue 120 48000 [verse_cue, chorus_cue] 0 (EditTime 40))
       = Some [Some chorus_cue, Some (verse_cue\<lparr> time := Some 40, sample_position := Some 1920000 \<rparr>)]
   \<and> key (editedCue 48000 [verse_cue, chorus_cue] 0 (EditKey ''3'')) = Some ''3''
   \<and> key ([verse_cue, chorus_cue] ! 1) = Some ''3''
   \<and> \<not> no_errors (validateCue 120 [verse_cue, chorus_cue] (editedCue 48000 [verse_cue, chorus_cue] 0 (EditKey ''3'')) 0)
   \<and> snd (updateCue 120 48000 [verse_cue, chorus_cue] 0 (EditKey ''3'')) = None"
proof -
  let ?cs = "[verse_cue, chorus_cue]"
  note t1 = update_rejects_or_sorts [of 120 48000 ?cs 0 "EditTime 40"]
  note t2 = update_rejects_or_sorts [of 120 48000 ?cs 0 "EditKey ''3''"]
  have a: "no_errors (validateCue 120 ?cs (editedCue 48000 ?cs 0 (EditTime 40)) 0)"
    by (simp add: registry_defs verse_cue_def chorus_cue_def)
  have b: "is_time_edit (EditTime 40)" by (simp add: is_time_edit_def)
  have c: "\<forall>c \<in> set ?cs. time c \<noteq> None"
    by (simp add: verse_cue_def chorus_cue_def del: not_None_eq)
  have d: "key (editedCue 48000 ?cs 0 (EditKey ''3'')) = Some ''3''"
    by (simp add: editedCue_def)
  have e: "key (?cs ! 1) = Some ''3''" by (simp add: chorus_cue_def)
  have f: "\<exists>k j. key (editedCue 48000 ?cs 0 (EditKey ''3'')) = Some k \<and> k \<noteq> [] \<and> j < length ?cs
              \<and> j \<noteq> 0 \<and> key (?cs ! j) = Some k"
    using d e by (intro exI[of _ "''3''"] exI[of _ 1]) simp
  from t1 a b c have g: "\<exists>out. snd (updateCue 120 48000 ?cs 0 (EditTime 40)) = Some (map Some out)
         \<and> sorted_by_time out
         \<and> mset out = mset (?cs[0 := editedCue 48000 ?cs 0 (EditTime 40)])"
    by blast
  from t2 f have h: "\<not> no_errors (validateCue 120 ?cs (editedCue 48000 ?cs 0 (EditKey ''3'')) 0)"
    by blast
  with t2 have i: "snd (updateCue 120 48000 ?cs 0 (EditKey ''3'')) = None" by blast
  have j: "snd (updateCue 120 48000 ?cs 0 (EditTime 40))
       = Some [Some chorus_cue, Some (verse_cue\<lparr> time := Some 40, sample_position := Some 1920000 \<rparr>)]"
    by (simp only: move_verse snd_conv)
  from c have c': "time verse_cue \<noteq> None" "time chorus_cue \<noteq> None" by simp_all
  from a b c' d e g h i j show ?thesis by blast
qed

section \<open>The cue registry: export and import\<close>

text \<open>
  C9, as amended. Exporting a sorted cue array and importing it back gives the same
  array when every cue is in the form an import leaves it in: time, non-empty label, a
  key string, a sample rate and a sample position that the import's defaults do not
  replace. In particular every array that an import has produced comes back unchanged.
\<close>

theorem roundtrip_of_persisted_form:
  "((\<forall>c \<in> set X. persisted_form sampleRate c) \<and> sorted_by_time X
      \<longrightarrow> loadCuesFromJSON sampleRate (saveCuesToJSON X) = Inr X)
   \<and> (loadCuesFromJSON sampleRate file = Inr Y
      \<longrightarrow> loadCuesFromJSON sampleRate (saveCuesToJSON Y) = Inr Y)"
  using roundtrip_persisted load_result_form by blast

theorem roundtrip_of_persisted_form_witness:
  "persisted_form 48000 verse_cue \<and> persisted_form 48000 chorus_cue
   \<and> sorted_by_time [verse_cue, chorus_cue]
   \<and> loadCuesFromJSON 48000 (saveCuesToJSON [verse_cue, chorus_cue]) = Inr [verse_cue, chorus_cue]
   \<and> loadCuesFromJSON 48000 (CueArray [intro_cue])
        = Inr [intro_cue\<lparr> sample_rate := Some 48000, sample_position := Some 240000 \<rparr>]
   \<and> loadCuesFromJSON 48000
        (saveCuesToJSON [intro_cue\<lparr> sample_rate := Some 48000, sample_position := Some 240000 \<rparr>])
        = Inr [intro_cue\<lparr> sample_rate := Some 48000, sample_position := Some 240000 \<rparr>]"
proof -
  note t1 = roundtrip_of_persisted_form [of "[verse_cue, chorus_cue]" 48000]
  note t2 = roundtrip_of_persisted_form [of _ 48000 "CueArray [intro_cue]"
      "[intro_cue\<lparr> sample_rate := Some 48000, sample_position := Some 240000 \<rparr>]"]
  have a: "\<forall>c \<in> set [verse_cue, chorus_cue]. persisted_form 48000 c"
    by (simp add: persisted_form_def verse_cue_def chorus_cue_def)
  have b: "sorted_by_time [verse_cue, chorus_cue]"
    by (simp add: sorted_by_time_def time_le_def verse_cue_def chorus_cue_def)
  have c: "loadCuesFromJSON 48000 (CueArray [intro_cue])
        = Inr [intro_cue\<lparr> sample_rate := Some 48000, sample_position := Some 240000 \<rparr>]"
    using intro_cue_import by (simp only: saveCuesToJSON_def)
  from a have a': "persisted_form 48000 verse_cue" "persisted_form 48000 chorus_cue" by simp_all
  from t1 t2 a a' b c show ?thesis by blast
qed

text \<open>
  C9 as stated fails for a valid, sorted array whose cues lack the optional fields:
  the first test cue of \<open>SyncDemo.jsx\<close> passes validation, and comes back from the
  export and import with a sample rate and a sample position it did not have.
\<close>

theorem roundtrip_counterexample:
  "no_errors (validateCue 120 [intro_cue] intro_cue 0)
   \<and> sorted_by_time [intro_cue]
   \<and> loadCuesFromJSON 48000 (saveCuesToJSON [intro_cue]) \<noteq> Inr [intro_cue]"
  by (simp add: intro_cue_import)
     (simp add: intro_cue_def validateCue_def no_errors_def findIndex_def trim_def is_whitespace_def
        sorted_by_time_def)

section \<open>Key dispatch\<close>

text \<open>
  C8, as amended. Key dispatch ignores every key event that carries Ctrl, Alt or Meta
  (Shift is not treated as a modifier), every event whose target is one of the excluded
  elements (\<open>input\<close>, \<open>textarea\<close>, \<open>select\<close> by default) or is content-editable, and
  every event on a key, read in lower case, within \<open>debounceMs\<close> of the previous
  trigger of that key; any other event whose key is mapped triggers the bound cue,
  provided dispatch is enabled. The hook's own default for \<open>debounceMs\<close> is 100 ms;
  150 ms is what the application passes.
\<close>

theorem key_dispatch_filter:
  "((\<not> enabled \<or> ctrlKey e \<or> altKey e \<or> metaKey e
       \<or> (\<exists>t. target e = Some t
              \<and> (toLowerCase (tagName t) \<in> set excludeTargets \<or> isContentEditable t)))
      \<longrightarrow> handleKeyPress enabled debounceMs excludeTargets now e st = (None, st))
   \<and> ((\<exists>last. lastTriggerRef st (toLowerCase (eventKey e)) = Some last \<and> last \<noteq> 0
              \<and> now - last < debounceMs)
      \<longrightarrow> handleKeyPress enabled debounceMs excludeTargets now e st = (None, st))
   \<and> (enabled \<and> \<not> ctrlKey e \<and> \<not> altKey e \<and> \<not> metaKey e
        \<and> (\<forall>t. target e = Some t
              \<longrightarrow> toLowerCase (tagName t) \<notin> set excludeTargets \<and> \<not> isContentEditable t)
        \<and> (\<forall>last. lastTriggerRef st (toLowerCase (eventKey e)) = Some last
              \<longrightarrow> last = 0 \<or> debounceMs \<le> now - last)
        \<and> keyMapRef st (toLowerCase (eventKey e)) = Some c
      \<longrightarrow> fst (handleKeyPress enabled debounceMs excludeTargets now e st) = Some c)
   \<and> default_debounceMs = 100
   \<and> default_excludeTargets = [''input'', ''textarea'', ''select'']
   \<and> UnifiedVideoEditor_debounceMs = 150"
proof -
  have 1: "handleKeyPress enabled debounceMs excludeTargets now e st = (None, st)"
    if "\<not> enabled \<or> ctrlKey e \<or> altKey e \<or> metaKey e
       \<or> (\<exists>t. target e = Some t
              \<and> (toLowerCase (tagName t) \<in> set excludeTargets \<or> isContentEditable t))"
  proof -
    from that have "shouldIgnoreEvent enabled excludeTargets e"
      by (auto simp: shouldIgnoreEvent_def)
    then show ?thesis by (simp add: handleKeyPress_def)
  qed
  have 2: "handleKeyPress enabled debounceMs excludeTargets now e st = (None, st)"
    if "\<exists>last. lastTriggerRef st (toLowerCase (eventKey e)) = Some last \<and> last \<noteq> 0
              \<and> now - last < debounceMs"
    using that by (auto simp: handleKeyPress_def Let_def split: option.splits)
  have 3: "fst (handleKeyPress enabled debounceMs excludeTargets now e st) = Some c"
    if "enabled \<and> \<not> ctrlKey e \<and> \<not> altKey e \<and> \<not> metaKey e
        \<and> (\<forall>t. target e = Some t
              \<longrightarrow> toLowerCase (tagName t) \<notin> set excludeTargets \<and> \<not> isContentEditable t)
        \<and> (\<forall>last. lastTriggerRef st (toLowerCase (eventKey e)) = Some last
              \<longrightarrow> last = 0 \<or> debounceMs \<le> now - last)
        \<and> keyMapRef st (toLowerCase (eventKey e)) = Some c"
  proof -
    from that have "\<not> shouldIgnoreEvent enabled excludeTargets e"
      by (auto simp: shouldIgnoreEvent_def split: option.splits)
    moreover from that have "\<not> (case lastTriggerRef st (toLowerCase (eventKey e)) of
                      None \<Rightarrow> False
                    | Some lastTrigger \<Rightarrow> lastTrigger \<noteq> 0 \<and> now - lastTrigger < debounceMs)"
      by (auto split: option.splits)
    ultimately show ?thesis using that by (simp add: handleKeyPress_def Let_def)
  qed
  from 1 2 3 show ?thesis
    by (simp add: default_debounceMs_def default_excludeTargets_def UnifiedVideoEditor_debounceMs_def)
qed


theorem key_dispatch_filter_witness:
  "ctrlKey (plain_a_event\<lparr> ctrlKey := True \<rparr>)
   \<and> handleKeyPress True UnifiedVideoEditor_debounceMs default_excludeTargets 1000
        (plain_a_event\<lparr> ctrlKey := True \<rparr>) (mountKeyboard [lower_a_cue])
       = (None, mountKeyboard [lower_a_cue])
   \<and> fst (handleKeyPress True UnifiedVideoEditor_debounceMs default_excludeTargets 1000 plain_a_event
            (mountKeyboard [lower_a_cue])) = Some (lower_a_cue, 0)
   \<and> lastTriggerRef (snd (handleKeyPress True UnifiedVideoEditor_debounceMs default_excludeTargets 1000
            plain_a_event (mountKeyboard [lower_a_cue]))) (toLowerCase (eventKey plain_a_event)) = Some 1000
   \<and> (1100 - 1000 :: real) < UnifiedVideoEditor_debounceMs
   \<and> fst (handleKeyPress True UnifiedVideoEditor_debounceMs default_excludeTargets 1100 plain_a_event
        (snd (handleKeyPress True UnifiedVideoEditor_debounceMs default_excludeTargets 1000
            plain_a_event (mountKeyboard [lower_a_cue])))) = None"
proof -
  let ?st0 = "mountKeyboard [lower_a_cue]"
  let ?db = "UnifiedVideoEditor_debounceMs"
  let ?st1 = "snd (handleKeyPress True ?db default_excludeTargets 1000 plain_a_event ?st0)"
  note t1 = key_dispatch_filter [where enabled = True and e = "plain_a_event\<lparr> ctrlKey := True \<rparr>"
      and excludeTargets = default_excludeTargets and debounceMs = ?db and now = 1000 and st = ?st0]
  note t2 = key_dispatch_filter [where enabled = True and e = plain_a_event
      and excludeTargets = default_excludeTargets and debounceMs = ?db and now = 1100 and st = ?st1]
  note t3 = key_dispatch_filter [where enabled = True and e = plain_a_event
      and excludeTargets = default_excludeTargets and debounceMs = ?db and now = 1000 and st = ?st0
      and c = "(lower_a_cue, 0)"]
  have a: "ctrlKey (plain_a_event\<lparr> ctrlKey := True \<rparr>)" by simp
  have b: "lastTriggerRef ?st1 (toLowerCase (eventKey plain_a_event)) = Some 1000"
    by (simp only: first_press snd_conv) (simp add: plain_a_event_def toLowerCase_examples)
  have c: "(1100 - 1000 :: real) < ?db" "(1000::real) \<noteq> 0"
    by (simp_all add: UnifiedVideoEditor_debounceMs_def)
  have d: "True \<and> \<not> ctrlKey plain_a_event \<and> \<not> altKey plain_a_event \<and> \<not> metaKey plain_a_event
        \<and> (\<forall>t. target plain_a_event = Some t
              \<longrightarrow> toLowerCase (tagName t) \<notin> set default_excludeTargets \<and> \<not> isContentEditable t)
        \<and> (\<forall>last. lastTriggerRef ?st0 (toLowerCase (eventKey plain_a_event)) = Some last
              \<longrightarrow> last = 0 \<or> ?db \<le> 1000 - last)
        \<and> keyMapRef ?st0 (toLowerCase (eventKey plain_a_event)) = Some (lower_a_cue, 0)"
    by (simp add: plain_a_event_def mountKeyboard_def buildKeyMap_def toLowerCase_examples
        default_excludeTargets_def lower_a_cue_def)
  from t1 a have e: "handleKeyPress True ?db default_excludeTargets 1000
        (plain_a_event\<lparr> ctrlKey := True \<rparr>) ?st0 = (None, ?st0)"
    by blast
  from t3 d have f: "fst (handleKeyPress True ?db default_excludeTargets 1000 plain_a_event ?st0)
      = Some (lower_a_cue, 0)"
    by blast
  from t2 b c have "handleKeyPress True ?db default_excludeTargets 1100 plain_a_event ?st1 = (None, ?st1)"
    by blast
  then have g: "fst (handleKeyPress True ?db default_excludeTargets 1100 plain_a_event ?st1) = None"
    by simp
  from a b c e f g show ?thesis by blast
qed

text \<open>
  C8 as stated fails twice: an event that carries the Shift modifier and whose key is
  mapped triggers the cue, and the default of \<open>debounceMs\<close> is not 150 ms.
\<close>

theorem key_dispatch_shift_and_default_counterexample:
  "shiftKey shift_A_event
   \<and> fst (handleKeyPress True default_debounceMs default_excludeTargets 1000 shift_A_event
            (mountKeyboard [lower_a_cue]))
       = Some (lower_a_cue, 0)
   \<and> default_debounceMs \<noteq> 150"
  by (simp add: keyboard_defs shift_A_event_def lower_a_cue_def default_excludeTargets_def
      default_debounceMs_def)


text \<open>
  C10. Key-to-cue resolution is case-insensitive. Let two cues of the registry have
  keys that differ in letter case only and that no other cue carries, the first of them
  being the first cue whose key reads so in lower case. Then validation reports a key
  error for neither, the key map binds the lower-case key to the first cue, an event
  with either spelling is handled alike, and an event that is not ignored triggers the
  first cue: the second one cannot be reached.
\<close>

theorem key_resolution_case_insensitive:
  assumes "i < j" and "j < length cs"
    and "key (cs ! i) = Some ki" and "key (cs ! j) = Some kj"
    and "ki \<noteq> []" and "kj \<noteq> []" and "ki \<noteq> kj" and "toLowerCase ki = toLowerCase kj"
    and "\<forall>n < i. \<not> binds (toLowerCase ki) (cs ! n)"
    and "\<forall>n < length cs. n \<noteq> i \<longrightarrow> key (cs ! n) \<noteq> Some ki"
    and "\<forall>n < length cs. n \<noteq> j \<longrightarrow> key (cs ! n) \<noteq> Some kj"
  shows "key_error (validateCue d cs (cs ! i) i) = None
       \<and> key_error (validateCue d cs (cs ! j) j) = None
       \<and> fst (buildKeyMap cs) (toLowerCase kj) = Some (cs ! i, i)
       \<and> handleKeyPress enabled debounceMs excludeTargets now (e\<lparr> eventKey := kj \<rparr>) (mountKeyboard cs)
           = handleKeyPress enabled debounceMs excludeTargets now (e\<lparr> eventKey := ki \<rparr>) (mountKeyboard cs)
       \<and> (\<not> shouldIgnoreEvent enabled excludeTargets e \<longrightarrow>
            fst (handleKeyPress enabled debounceMs excludeTargets now (e\<lparr> eventKey := kj \<rparr>) (mountKeyboard cs))
              = Some (cs ! i, i))"
proof -
  have i: "i < length cs" using assms(1,2) by simp
  have 1: "key_error (validateCue d cs (cs ! i) i) = None"
    by (rule validate_key_unique[OF assms(3) assms(10)])
  have 2: "key_error (validateCue d cs (cs ! j) j) = None"
    by (rule validate_key_unique[OF assms(4) assms(11)])
  have b: "binds (toLowerCase ki) (cs ! i)"
    using assms(3,5) by (simp add: binds_def)
  have 3: "fst (buildKeyMap cs) (toLowerCase kj) = Some (cs ! i, i)"
    using first_bound_first[OF i b assms(9), of 0]
    by (simp add: buildKeyMap_lookup assms(8)[symmetric])
  have 4: "handleKeyPress enabled debounceMs excludeTargets now (e\<lparr> eventKey := kj \<rparr>) (mountKeyboard cs)
           = handleKeyPress enabled debounceMs excludeTargets now (e\<lparr> eventKey := ki \<rparr>) (mountKeyboard cs)"
    by (simp add: handleKeyPress_def shouldIgnoreEvent_eventKey assms(8))
  have 5: "fst (handleKeyPress enabled debounceMs excludeTargets now (e\<lparr> eventKey := kj \<rparr>) (mountKeyboard cs))
              = Some (cs ! i, i)"
    if "\<not> shouldIgnoreEvent enabled excludeTargets e"
  proof -
    have "\<not> shouldIgnoreEvent enabled excludeTargets (e\<lparr> eventKey := kj \<rparr>)"
      using that by (simp add: shouldIgnoreEvent_eventKey)
    moreover have "keyMapRef (mountKeyboard cs) (toLowerCase kj) = Some (cs ! i, i)"
      using 3 by (simp add: mountKeyboard_def)
    moreover have "lastTriggerRef (mountKeyboard cs) (toLowerCase kj) = None"
      by (simp add: mountKeyboard_def)
    ultimately show ?thesis by (simp add: handleKeyPress_def Let_def)
  qed
  from 1 2 3 4 5 show ?thesis by blast
qed


theorem key_resolution_case_insensitive_witness:
  "(1::nat) < 2 \<and> 2 < length [verse_cue, lower_a_cue, upper_A_cue]
   \<and> key ([verse_cue, lower_a_cue, upper_A_cue] ! 1) = Some ''a''
   \<and> key ([verse_cue, lower_a_cue, upper_A_cue] ! 2) = Some ''A''
   \<and> ''a'' \<noteq> ''A'' \<and> toLowerCase ''a'' = toLowerCase ''A''
   \<and> \<not> binds (toLowerCase ''a'') ([verse_cue, lower_a_cue, upper_A_cue] ! 0)
   \<and> no_errors (validateCue 120 [verse_cue, lower_a_cue, upper_A_cue] lower_a_cue 1)
   \<and> no_errors (validateCue 120 [verse_cue, lower_a_cue, upper_A_cue] upper_A_cue 2)
   \<and> fst (buildKeyMap [verse_cue, lower_a_cue, upper_A_cue]) (toLowerCase ''A'') = Some (lower_a_cue, 1)
   \<and> snd (buildKeyMap [verse_cue, lower_a_cue, upper_A_cue]) = [''a'']
   \<and> \<not> shouldIgnoreEvent True default_excludeTargets shift_A_event
   \<and> fst (handleKeyPress True default_debounceMs default_excludeTargets 1000
            (shift_A_event\<lparr> eventKey := ''A'' \<rparr>) (mountKeyboard [verse_cue, lower_a_cue, upper_A_cue]))
       = Some (lower_a_cue, 1)"
proof -
  let ?cs = "[verse_cue, lower_a_cue, upper_A_cue]"
  have a: "(1::nat) < 2" "2 < length ?cs" "key (?cs ! 1) = Some ''a''" "key (?cs ! 2) = Some ''A''"
    "''a'' \<noteq> []" "''A'' \<noteq> []" "''a'' \<noteq> ''A''" "toLowerCase ''a'' = toLowerCase ''A''"
    by (simp_all add: lower_a_cue_def upper_A_cue_def toLowerCase_examples)
  have b0: "\<not> binds (toLowerCase ''a'') (?cs ! 0)"
    by (simp add: binds_def verse_cue_def toLowerCase_examples)
  then have b: "\<forall>n < (1::nat). \<not> binds (toLowerCase ''a'') (?cs ! n)" by simp
  have c: "\<forall>n < length ?cs. n \<noteq> 1 \<longrightarrow> key (?cs ! n) \<noteq> Some ''a''"
    "\<forall>n < length ?cs. n \<noteq> 2 \<longrightarrow> key (?cs ! n) \<noteq> Some ''A''"
    by (simp_all add: verse_cue_def lower_a_cue_def upper_A_cue_def less_Suc_eq numeral_3_eq_3)
  note t = key_resolution_case_insensitive [OF a b c, where d = 120 and enabled = True
      and debounceMs = default_debounceMs and excludeTargets = default_excludeTargets
      and now = 1000 and e = shift_A_event]
  have d: "\<not> shouldIgnoreEvent True default_excludeTargets shift_A_event"
    by (simp add: keyboard_defs shift_A_event_def default_excludeTargets_def)
  have e: "no_errors (validateCue 120 ?cs lower_a_cue 1)" "no_errors (validateCue 120 ?cs upper_A_cue 2)"
    by (simp_all add: validateCue_def no_errors_def findIndex_def trim_def is_whitespace_def
        verse_cue_def lower_a_cue_def upper_A_cue_def)
  have f: "snd (buildKeyMap ?cs) = [''a'']"
    by (simp add: keyboard_defs verse_cue_def lower_a_cue_def upper_A_cue_def)
  from t d have "fst (buildKeyMap ?cs) (toLowerCase ''A'') = Some (?cs ! 1, 1)"
    "fst (handleKeyPress True default_debounceMs default_excludeTargets 1000
            (shift_A_event\<lparr> eventKey := ''A'' \<rparr>) (mountKeyboard ?cs)) = Some (?cs ! 1, 1)"
    by blast+
  then have g: "fst (buildKeyMap ?cs) (toLowerCase ''A'') = Some (lower_a_cue, 1)"
    "fst (handleKeyPress True default_debounceMs default_excludeTargets 1000
            (shift_A_event\<lparr> eventKey := ''A'' \<rparr>) (mountKeyboard ?cs)) = Some (lower_a_cue, 1)"
    by simp_all
  from a b0 d e f g show ?thesis by blast
qed

end
